theory Spec2Isabelle
  imports Complex_Main "HOL-Library.Sublist" "HOL-Library.Word"
begin

section \<open>The transcode engine wrapper (ffmpeg-processor.ts)\<close>

text \<open>
  \<open>FFmpegProcessor\<close> wraps the external FFmpeg engine. The engine itself is not part of
  the repository: every call into it takes the engine's answer as an argument (does the
  promise resolve, and with which bytes), and every call that really reaches the engine is
  recorded in the ghost field \<open>engineCalls\<close>. Exceptions are values of type \<open>error\<close>;
  the texts of the messages are presentation and are left out. The wall-clock total
  \<open>totalProcessingTime\<close> of the metrics is telemetry read from \<open>performance.now()\<close>
  and is not modelled; the operation and byte counters are.
\<close>

type_synonym bytes = "8 word list"

datatype error =
    NotInitialized      \<comment> \<open>the guard \<open>if (!this.isInitialized) throw new Error(...)\<close>\<close>
  | NullEngine          \<comment> \<open>\<open>this.ffmpeg!\<close> dereferenced while \<open>this.ffmpeg\<close> is null\<close>
  | EngineFailure       \<comment> \<open>the engine's promise was rejected\<close>
  | FetchFailure        \<comment> \<open>\<open>fetchFile\<close> was rejected\<close>

datatype engine_call =
    Exec "string list"
  | WriteFileCall string bytes
  | ReadFileCall string
  | DeleteFileCall string

record processor =
  ffmpeg :: bool                  \<comment> \<open>\<open>this.ffmpeg\<close> is not null\<close>
  isInitialized :: bool
  totalOperations :: nat
  successfulOperations :: nat
  failedOperations :: nat
  totalBytesProcessed :: nat
  engineCalls :: "engine_call list"

text \<open>The argument of \<open>writeFile\<close>: a \<open>File\<close>/\<open>Blob\<close> with its \<open>size\<close> and what
  \<open>fetchFile\<close> yields for it (\<open>None\<close>: rejected), or a \<open>Uint8Array\<close>.\<close>

datatype file_data = BlobData nat "bytes option" | RawBytes bytes

definition executeCommand ::
  "processor \<Rightarrow> string list \<Rightarrow> bool \<Rightarrow> (error + bool) \<times> processor" where
  "executeCommand p command execOk =
     (if \<not> isInitialized p then (Inl NotInitialized, p)
      else
        let p1 = p\<lparr>totalOperations := totalOperations p + 1\<rparr> in
        if \<not> ffmpeg p1
        then (Inl NullEngine, p1\<lparr>failedOperations := failedOperations p1 + 1\<rparr>)
        else
          let p2 = p1\<lparr>engineCalls := engineCalls p1 @ [Exec command]\<rparr> in
          if execOk
          then (Inr True, p2\<lparr>successfulOperations := successfulOperations p2 + 1\<rparr>)
          else (Inl EngineFailure, p2\<lparr>failedOperations := failedOperations p2 + 1\<rparr>))"

definition writeFile ::
  "processor \<Rightarrow> string \<Rightarrow> file_data \<Rightarrow> bool \<Rightarrow> (error + unit) \<times> processor" where
  "writeFile p filename data writeOk =
     (if \<not> isInitialized p then (Inl NotInitialized, p)
      else
        case (case data of BlobData sz fetched \<Rightarrow> fetched | RawBytes b \<Rightarrow> Some b) of
          None \<Rightarrow> (Inl FetchFailure, p)
        | Some fileData \<Rightarrow>
            if \<not> ffmpeg p then (Inl NullEngine, p)
            else
              let p1 = p\<lparr>engineCalls := engineCalls p @ [WriteFileCall filename fileData]\<rparr> in
              if \<not> writeOk then (Inl EngineFailure, p1)
              else
                let byteSize =
                      (if length fileData \<noteq> 0 then length fileData
                       else (case data of BlobData sz fetched \<Rightarrow> sz | RawBytes b \<Rightarrow> 0))
                in (Inr (), p1\<lparr>totalBytesProcessed := totalBytesProcessed p1 + byteSize\<rparr>))"

definition readFile ::
  "processor \<Rightarrow> string \<Rightarrow> bytes option \<Rightarrow> (error + bytes) \<times> processor" where
  "readFile p filename readReply =
     (if \<not> isInitialized p then (Inl NotInitialized, p)
      else if \<not> ffmpeg p then (Inl NullEngine, p)
      else
        let p1 = p\<lparr>engineCalls := engineCalls p @ [ReadFileCall filename]\<rparr> in
        case readReply of
          Some data \<Rightarrow> (Inr data, p1)
        | None \<Rightarrow> (Inl EngineFailure, p1))"

text \<open>\<open>deleteFile\<close> swallows every failure of the deletion itself (the \<open>catch\<close> only logs);
  the initialisation guard stands before the \<open>try\<close> and does raise.\<close>

definition deleteFile ::
  "processor \<Rightarrow> string \<Rightarrow> bool \<Rightarrow> (error + unit) \<times> processor" where
  "deleteFile p filename deleteOk =
     (if \<not> isInitialized p then (Inl NotInitialized, p)
      else if \<not> ffmpeg p then (Inr (), p)
      else (Inr (), p\<lparr>engineCalls := engineCalls p @ [DeleteFileCall filename]\<rparr>))"

definition getVideoDuration ::
  "processor \<Rightarrow> string \<Rightarrow> bool \<Rightarrow> int \<times> processor" where
  "getVideoDuration p inputFile execOk =
     (case executeCommand p [''-i'', inputFile, ''-f'', ''null'', ''-''] execOk of
        (Inr ok, p') \<Rightarrow> (60, p')
      | (Inl err, p') \<Rightarrow> (60, p'))"

section \<open>The chunk producer and the session controller (main.ts, realtimeConversion)\<close>

text \<open>
  \<open>convertChunk\<close> turns its options into an engine command; \<open>startTime.toString()\<close>
  and \<open>duration.toString()\<close> print integers in decimal.
\<close>

record ChunkConvertOptions =
  chunkInput :: string      \<comment> \<open>the field \<open>input\<close>\<close>
  chunkOutput :: string     \<comment> \<open>the field \<open>output\<close>\<close>
  startTime :: int
  duration :: int
  videoCodec :: "string option"
  crf :: "string option"
  preset :: "string option"
  outputFormat :: "string option"

fun natToString :: "nat \<Rightarrow> string" where
  "natToString n =
     (if n < 10 then [''0123456789'' ! n]
      else natToString (n div 10) @ [''0123456789'' ! (n mod 10)])"

declare natToString.simps [simp del]

definition numberToString :: "int \<Rightarrow> string" where
  "numberToString i =
     (if i < 0 then CHR ''-'' # natToString (nat (- i)) else natToString (nat i))"

definition orDefault :: "'a option \<Rightarrow> 'a \<Rightarrow> 'a" where
  "orDefault v d = (case v of None \<Rightarrow> d | Some x \<Rightarrow> x)"

definition convertChunkCommand :: "ChunkConvertOptions \<Rightarrow> string list" where
  "convertChunkCommand opts =
     (let vc = orDefault (videoCodec opts) ''libx264'';
          q = orDefault (crf opts) ''23'';
          pr = orDefault (preset opts) ''ultrafast'';
          fmt = orDefault (outputFormat opts) ''mpegts''
      in if fmt = ''mpegts''
         then [''-ss'', numberToString (startTime opts), ''-i'', chunkInput opts,
               ''-t'', numberToString (duration opts),
               ''-c:v'', vc, ''-crf'', q, ''-preset'', pr,
               ''-c:a'', ''aac'', ''-b:a'', ''128k'',
               ''-mpegts_m2ts_mode'', ''1'', ''-f'', ''mpegts'', ''-y'', chunkOutput opts]
         else [''-ss'', numberToString (startTime opts), ''-i'', chunkInput opts,
               ''-t'', numberToString (duration opts),
               ''-c:v'', vc, ''-crf'', q, ''-preset'', pr,
               ''-c:a'', ''aac'', ''-b:a'', ''128k'',
               ''-profile:v'', ''baseline'', ''-level'', ''3.0'',
               ''-movflags'', ''+frag_keyframe+empty_moov+faststart+default_base_moof'',
               ''-frag_duration'', numberToString (duration opts),
               ''-f'', fmt, ''-y'', chunkOutput opts])"

definition convertChunk ::
  "processor \<Rightarrow> ChunkConvertOptions \<Rightarrow> bool \<Rightarrow> (error + unit) \<times> processor" where
  "convertChunk p opts execOk =
     (case executeCommand p (convertChunkCommand opts) execOk of
        (Inl err, p') \<Rightarrow> (Inl err, p')
      | (Inr ok, p') \<Rightarrow> (Inr (), p'))"

text \<open>
  \<open>realtimeConversion\<close> is an asynchronous function: between two of its steps the sink
  side (modelled further down) and the user may run. What it observes of them, and what the
  engine answers, is given per loop iteration by an \<open>iter_env\<close>: the value of
  \<open>this.isStreaming\<close> read by the loop test, the negotiated \<open>this.supportedMimeType\<close>,
  whether \<open>this.sourceBuffer\<close> is set and accepts the assignment to its
  \<open>timestampOffset\<close> (it throws while the buffer is updating or removed), the engine's
  answers, and whether the promise of \<open>addChunkToStreamWithRetry\<close> resolves. What the
  function does is recorded as a list of \<open>action\<close>s.
\<close>

datatype mime = MP2T | MP4 | WEBM   \<comment> \<open>the three entries of \<open>mimeTypes\<close>, in order\<close>

record options =
  optionsInputFile :: file_data
  optionsVideoCodec :: "string option"
  optionsCrf :: "string option"

record iter_env =
  streaming :: bool
  mimeType :: "mime option"
  sbPresent :: bool
  offsetOk :: bool
  execReply :: bool
  readReply :: "bytes option"
  addReply :: bool
  deleteReply :: bool

datatype action =
    ResetSession nat                  \<comment> \<open>start of attempt \<open>n\<close>: counters, queue and flags reset\<close>
  | InitMediaSource
  | ConvertChunk ChunkConvertOptions  \<comment> \<open>a call of \<open>convertChunk\<close> with these options\<close>
  | SetTimestampOffset int
  | AddChunkToStream nat bytes        \<comment> \<open>chunk index and payload given to \<open>addChunkToStreamWithRetry\<close>\<close>
  | Sleep nat                         \<comment> \<open>\<open>setTimeout\<close> awaited, in milliseconds\<close>
  | StopStreaming                     \<comment> \<open>\<open>this.stopStreaming()\<close> in \<open>catch (error)\<close>\<close>
  | FallbackToNormalConversion
  | AttemptFinally                    \<comment> \<open>the \<open>finally\<close> block of an attempt\<close>

definition chunkDuration :: int where
  "chunkDuration = 8"

definition maxConsecutiveErrors :: nat where
  "maxConsecutiveErrors = 3"


definition chunkExtension :: "mime option \<Rightarrow> string" where
  "chunkExtension m =
     (case m of
        None \<Rightarrow> ''.ts''
      | Some MP4 \<Rightarrow> ''.mp4''
      | Some WEBM \<Rightarrow> ''.webm''
      | Some MP2T \<Rightarrow> ''.ts'')"

definition chunkName :: "nat \<Rightarrow> string \<Rightarrow> string" where
  "chunkName currentChunk ext = ''chunk_'' @ natToString currentChunk @ ext"

definition chunkOptions :: "options \<Rightarrow> mime option \<Rightarrow> nat \<Rightarrow> ChunkConvertOptions" where
  "chunkOptions opts m currentChunk =
     \<lparr>chunkInput = ''input.mp4'',
      chunkOutput = chunkName currentChunk (chunkExtension m),
      startTime = int currentChunk * chunkDuration,
      duration = chunkDuration,
      videoCodec = optionsVideoCodec opts,
      crf = optionsCrf opts,
      preset = Some ''ultrafast'',
      outputFormat = Some (drop 1 (chunkExtension m))\<rparr>"

text \<open>The body of the inner \<open>try\<close>: one attempt at chunk \<open>currentChunk\<close>. The result is
  \<open>True\<close> when the body ran to its end, \<open>False\<close> when it threw into \<open>catch (chunkError)\<close>.\<close>

definition attemptChunk ::
  "options \<Rightarrow> iter_env \<Rightarrow> nat \<Rightarrow> processor \<Rightarrow> bool \<times> action list \<times> processor" where
  "attemptChunk opts e currentChunk p =
     (let copts = chunkOptions opts (mimeType e) currentChunk in
      case convertChunk p copts (execReply e) of
        (Inl err, p1) \<Rightarrow> (False, [ConvertChunk copts], p1)
      | (Inr u, p1) \<Rightarrow>
          (case readFile p1 (chunkOutput copts) (readReply e) of
             (Inl err, p2) \<Rightarrow> (False, [ConvertChunk copts], p2)
           | (Inr chunkData, p2) \<Rightarrow>
               if sbPresent e \<and> currentChunk > 0 \<and> \<not> offsetOk e
               then (False, [ConvertChunk copts], p2)
               else
               let offs = (if sbPresent e \<and> currentChunk > 0
                           then [SetTimestampOffset (startTime copts)] else [])
               in if \<not> addReply e
                  then (False, ConvertChunk copts # offs @ [AddChunkToStream currentChunk chunkData], p2)
                  else (True, ConvertChunk copts # offs @ [AddChunkToStream currentChunk chunkData],
                        snd (deleteFile p2 (chunkOutput copts) (deleteReply e)))))"

datatype loop_exit =
    LoopDone           \<comment> \<open>the \<open>while\<close> test failed\<close>
  | LastChunkIgnored   \<comment> \<open>\<open>break\<close> in \<open>catch (chunkError)\<close>\<close>
  | TooManyErrors      \<comment> \<open>\<open>throw new Error(...)\<close> at the head of the body\<close>

definition prepend :: "action list \<Rightarrow> action list \<times> loop_exit \<times> processor \<Rightarrow> action list \<times> loop_exit \<times> processor" where
  "prepend acts r = (case r of (acts', ex, p) \<Rightarrow> (acts @ acts', ex, p))"

function chunkLoop ::
  "int \<Rightarrow> options \<Rightarrow> (nat \<Rightarrow> iter_env) \<Rightarrow> nat \<Rightarrow> nat \<Rightarrow> nat \<Rightarrow> processor
     \<Rightarrow> action list \<times> loop_exit \<times> processor" where
  "chunkLoop totalDuration opts env n currentChunk consecutiveErrors p =
     (if int currentChunk * chunkDuration < totalDuration \<and> streaming (env n) then
        if consecutiveErrors \<ge> maxConsecutiveErrors then ([], TooManyErrors, p)
        else if fst (attemptChunk opts (env n) currentChunk p) then
          prepend (fst (snd (attemptChunk opts (env n) currentChunk p)) @ [Sleep 200])
            (chunkLoop totalDuration opts env (n + 1) (currentChunk + 1) 0
               (snd (snd (attemptChunk opts (env n) currentChunk p))))
        else if int currentChunk * chunkDuration \<ge> totalDuration - chunkDuration then
          (fst (snd (attemptChunk opts (env n) currentChunk p)), LastChunkIgnored,
           snd (snd (attemptChunk opts (env n) currentChunk p)))
        else
          prepend (fst (snd (attemptChunk opts (env n) currentChunk p)) @ [Sleep 1000])
            (chunkLoop totalDuration opts env (n + 1) currentChunk (consecutiveErrors + 1)
               (snd (snd (attemptChunk opts (env n) currentChunk p))))
      else ([], LoopDone, p))"
  by pat_completeness auto
termination
  by (relation "measures [\<lambda>(D, opts, env, n, c, errs, p). nat (D - int c * chunkDuration),
                          \<lambda>(D, opts, env, n, c, errs, p). maxConsecutiveErrors - errs]")
     (auto simp: chunkDuration_def maxConsecutiveErrors_def)

declare chunkLoop.simps [simp del]













section \<open>Notions used to state the properties of the producer\<close>

text \<open>The requests made to \<open>convertChunk\<close> and the indices of the chunks handed to the
  stream, read off the list of actions; a processor on which the engine can be called; the
  number of chunks of a duration; an environment in which every iteration succeeds while
  the session keeps streaming.\<close>
fun requests :: "action list \<Rightarrow> ChunkConvertOptions list" where
  "requests [] = []"
| "requests (ConvertChunk copts # acts) = copts # requests acts"
| "requests (a # acts) = requests acts"

fun addedChunks :: "action list \<Rightarrow> nat list" where
  "addedChunks [] = []"
| "addedChunks (AddChunkToStream i d # acts) = i # addedChunks acts"
| "addedChunks (a # acts) = addedChunks acts"




subsection \<open>Sample inputs\<close>

definition readyProcessor :: processor where
  "readyProcessor = \<lparr>ffmpeg = True, isInitialized = True, totalOperations = 0,
     successfulOperations = 0, failedOperations = 0, totalBytesProcessed = 0, engineCalls = []\<rparr>"

definition sampleOptions :: options where
  "sampleOptions = \<lparr>optionsInputFile = RawBytes [1, 2, 3], optionsVideoCodec = Some ''libx264'',
     optionsCrf = Some ''23''\<rparr>"

definition goodIteration :: iter_env where
  "goodIteration = \<lparr>streaming = True, mimeType = Some MP2T, sbPresent = True, offsetOk = True,
     execReply = True,
     readReply = Some [7], addReply = True, deleteReply = True\<rparr>"



definition failFromSix :: "nat \<Rightarrow> iter_env" where
  "failFromSix n = (if n < 6 then goodIteration else goodIteration\<lparr>execReply := False\<rparr>)"

definition stopAfterFailure :: "nat \<Rightarrow> iter_env" where
  "stopAfterFailure n =
     (if n < 2 then goodIteration
      else goodIteration\<lparr>execReply := False, streaming := (n = 2)\<rparr>)"





section \<open>The sink side: queue, admission control and recovery (main.ts)\<close>

text \<open>
  The fields of \<open>FFmpegDemo\<close> that the streaming code reads and writes form the record
  \<open>demo\<close>. The browser objects behind \<open>this.sourceBuffer\<close>, \<open>this.mediaSource\<close>, the
  video element and \<open>performance.memory\<close> are represented by what the code reads from
  them. A chunk in the queue is a \<open>Uint8Array\<close>; here it carries, as a ghost label, the
  sequence index the producer gave it. Times are in seconds (reals), delays of timers in
  milliseconds.

  The code runs in turns of a single event loop. Every turn is given a \<open>sink_reply\<close>: what
  the browser answers in that turn to the calls the code makes (does \<open>appendBuffer\<close>
  throw, and which error; are \<open>remove\<close>, \<open>removeSourceBuffer\<close>, \<open>endOfStream\<close> and
  \<open>addSourceBuffer\<close> accepted; is \<open>window.MediaSource\<close> there; the value of
  \<open>Date.now()\<close>). A call that is accepted has its effect on what the code can read later:
  an accepted \<open>appendBuffer\<close> or \<open>remove\<close> sets \<open>updating\<close>, an accepted
  \<open>removeSourceBuffer\<close> detaches the buffer, an accepted \<open>endOfStream\<close> ends the source.
  Accepted calls are recorded in the ghost field \<open>sinkLog\<close>, accepted pushes into the
  queue in \<open>pushLog\<close>.
\<close>

type_synonym chunk = "nat \<times> bytes"

datatype readyState = Closed | Opened | Ended

datatype dom_error = QuotaExceededError | InvalidStateError | NotSupportedError | OtherError

record sourceBufferObj =
  updating :: bool
  buffered :: "(real \<times> real) list option"   \<comment> \<open>\<open>None\<close>: reading \<open>buffered\<close> throws\<close>
  errorHandlers :: "nat list"                \<comment> \<open>the \<open>errorHandler\<close> closures registered on it\<close>

record mediaSourceObj =
  readyState :: readyState
  sourceBuffersLength :: nat                 \<comment> \<open>\<open>mediaSource.sourceBuffers.length\<close>\<close>

record videoElement =
  currentTime :: real
  hasError :: bool                           \<comment> \<open>\<open>video.error\<close> is set\<close>
  paused :: bool

record bufferMonitor =
  totalChunksAdded :: nat
  totalChunksProcessed :: nat
  monitorBytesProcessed :: nat               \<comment> \<open>the field \<open>totalBytesProcessed\<close>\<close>
  lastErrorTime :: "nat option"
  consecutiveErrors :: nat
  bufferHealthGood :: bool                   \<comment> \<open>\<open>bufferHealth\<close> is \<open>'good'\<close>, else \<open>'poor'\<close>\<close>

datatype task =
    ProcessStreamQueueTask        \<comment> \<open>\<open>() => this.processStreamQueue()\<close>\<close>
  | AppendTask chunk nat          \<comment> \<open>the deferred \<open>appendBuffer\<close> of \<open>processStreamQueue\<close>\<close>
  | RecoveryTask                  \<comment> \<open>\<open>() => this.handleSourceBufferErrorRecovery()\<close>\<close>
  | CleanupTask                   \<comment> \<open>\<open>() => this.cleanupMediaSource()\<close>\<close>
  | ReinitTask                    \<comment> \<open>the timer of the full reset\<close>
  | ReinitMp4Task                 \<comment> \<open>the timer of \<open>handleFormatIncompatibility\<close>\<close>
  | AutoPlayTask                  \<comment> \<open>\<open>() => this.attemptAutoPlay(video)\<close>\<close>

datatype sink_call =
    AppendBuffer chunk
  | Remove real real
  | RemoveSourceBuffer
  | EndOfStream
  | AddSourceBuffer mime

record demo =
  isStreaming :: bool
  streamQueue :: "chunk list"
  sourceBuffer :: "sourceBufferObj option"
  mediaSource :: "mediaSourceObj option"
  supportedMimeType :: "mime option"
  monitor :: bufferMonitor
  video :: "videoElement option"
  performanceMemory :: "(nat \<times> nat) option"   \<comment> \<open>\<open>usedJSHeapSize\<close>, \<open>totalJSHeapSize\<close>\<close>
  timers :: "(nat \<times> task) list"               \<comment> \<open>pending \<open>setTimeout\<close> calls, oldest first\<close>
  nextHandler :: nat
  restoreOnReject :: "mime option option"      \<comment> \<open>the \<open>.catch\<close> waiting on the last \<open>initMediaSource\<close>\<close>
  sinkLog :: "sink_call list"
  pushLog :: "chunk list"

record sink_reply =
  appendReply :: "dom_error option"
  removeOk :: bool
  removeSourceBufferOk :: bool
  endOfStreamOk :: bool
  addSourceBufferOk :: bool
  mediaSourceAvailable :: bool
  containerPresent :: bool
  isTypeSupported :: "mime \<Rightarrow> bool"
  now :: nat

definition setTimeout :: "task \<Rightarrow> nat \<Rightarrow> demo \<Rightarrow> demo" where
  "setTimeout t delay s = s\<lparr>timers := timers s @ [(delay, t)]\<rparr>"

subsection \<open>Admission control\<close>

datatype wait_message =
    NoMessage | TooManySegments | TooFarAhead | QueueTooLong | MemoryTooHigh | AnalysisFailed

record health =
  shouldWait :: bool
  waitTime :: nat
  message :: wait_message

text \<open>\<open>usedJSHeapSize / totalJSHeapSize > 0.8\<close> on byte counts. A division by zero gives
  \<open>Infinity\<close> for a positive dividend, which is above 0.8, and \<open>NaN\<close> for \<open>0 / 0\<close>,
  which compares false.\<close>

definition memoryUsageHigh :: "nat \<Rightarrow> nat \<Rightarrow> bool" where
  "memoryUsageHigh usedHeapSize totalHeapSize =
     (if totalHeapSize = 0 then usedHeapSize > 0
      else real usedHeapSize / real totalHeapSize > 0.8)"

definition analyzeBufferHealth :: "demo \<Rightarrow> health" where
  "analyzeBufferHealth s =
     (case sourceBuffer s of
        None \<Rightarrow> \<lparr>shouldWait = False, waitTime = 1000, message = NoMessage\<rparr>
      | Some sb \<Rightarrow>
          (case buffered sb of
             None \<Rightarrow> \<lparr>shouldWait = True, waitTime = 2000, message = AnalysisFailed\<rparr>
           | Some ranges \<Rightarrow>
               if length ranges = 0
               then \<lparr>shouldWait = False, waitTime = 1000, message = NoMessage\<rparr>
               else
                 let bufferedEnd = snd (ranges ! (length ranges - 1));
                     currentTime = (case video s of Some v \<Rightarrow> currentTime v | None \<Rightarrow> 0);
                     bufferAhead = bufferedEnd - currentTime
                 in if length ranges > 5
                    then \<lparr>shouldWait = True, waitTime = 2000, message = TooManySegments\<rparr>
                    else if bufferAhead > 30
                    then \<lparr>shouldWait = True, waitTime = 2000, message = TooFarAhead\<rparr>
                    else if length (streamQueue s) > 5
                    then \<lparr>shouldWait = True, waitTime = 500, message = QueueTooLong\<rparr>
                    else
                      (case performanceMemory s of
                         Some (usedHeapSize, totalHeapSize) \<Rightarrow>
                           if memoryUsageHigh usedHeapSize totalHeapSize
                           then \<lparr>shouldWait = True, waitTime = 5000, message = MemoryTooHigh\<rparr>
                           else \<lparr>shouldWait = False, waitTime = 1000, message = NoMessage\<rparr>
                       | None \<Rightarrow> \<lparr>shouldWait = False, waitTime = 1000, message = NoMessage\<rparr>)))"

subsection \<open>Teardown\<close>

text \<open>In \<open>cleanupMediaSource\<close> the \<open>finally\<close> of the inner \<open>try\<close> clears
  \<open>this.sourceBuffer\<close> also on the early \<open>return\<close> taken while the buffer is updating.\<close>

definition cleanupMediaSource :: "sink_reply \<Rightarrow> demo \<Rightarrow> demo" where
  "cleanupMediaSource r s =
     (case sourceBuffer s of
        Some sb \<Rightarrow>
          if updating sb
          then (setTimeout CleanupTask 100 s)\<lparr>sourceBuffer := None\<rparr>
          else
            (case mediaSource s of
               Some ms \<Rightarrow>
                 let removed = (sourceBuffersLength ms > 0 \<and> removeSourceBufferOk r);
                     ended = (readyState ms = Opened \<and> endOfStreamOk r)
                 in s\<lparr>sourceBuffer := None, mediaSource := None,
                      sinkLog := sinkLog s @ (if removed then [RemoveSourceBuffer] else [])
                                   @ (if ended then [EndOfStream] else [])\<rparr>
             | None \<Rightarrow> s\<lparr>sourceBuffer := None\<rparr>)
      | None \<Rightarrow>
          (case mediaSource s of
             Some ms \<Rightarrow>
               s\<lparr>mediaSource := None,
                 sinkLog := sinkLog s
                   @ (if readyState ms = Opened \<and> endOfStreamOk r then [EndOfStream] else [])\<rparr>
           | None \<Rightarrow> s))"

definition stopStreaming :: "sink_reply \<Rightarrow> demo \<Rightarrow> demo" where
  "stopStreaming r s = cleanupMediaSource r (s\<lparr>isStreaming := False, streamQueue := []\<rparr>)"

definition safeEndStream :: "sink_reply \<Rightarrow> demo \<Rightarrow> demo" where
  "safeEndStream r s =
     (case mediaSource s of
        Some ms \<Rightarrow>
          if readyState ms = Opened then
            (case sourceBuffer s of
               Some sb \<Rightarrow>
                 if \<not> updating sb then
                   if sourceBuffersLength ms > 0 then
                     if removeSourceBufferOk r then
                       if endOfStreamOk r
                       then s\<lparr>sourceBuffer := Some (sb\<lparr>buffered := None\<rparr>),
                              mediaSource := Some (ms\<lparr>sourceBuffersLength := sourceBuffersLength ms - 1,
                                                     readyState := Ended\<rparr>),
                              sinkLog := sinkLog s @ [RemoveSourceBuffer, EndOfStream]\<rparr>
                       else s\<lparr>sourceBuffer := Some (sb\<lparr>buffered := None\<rparr>),
                              mediaSource := Some (ms\<lparr>sourceBuffersLength := sourceBuffersLength ms - 1\<rparr>),
                              sinkLog := sinkLog s @ [RemoveSourceBuffer]\<rparr>
                     else s
                   else if endOfStreamOk r
                   then s\<lparr>mediaSource := Some (ms\<lparr>readyState := Ended\<rparr>),
                          sinkLog := sinkLog s @ [EndOfStream]\<rparr>
                   else s
                 else s
             | None \<Rightarrow> s)
          else s
      | None \<Rightarrow> s)"

subsection \<open>Opening the sink\<close>

text \<open>\<open>initMediaSource\<close> creates the \<open>MediaSource\<close> and, through \<open>createStreamingVideo\<close>,
  a new video element; the buffer is created later, when the browser fires \<open>sourceopen\<close>.
  The argument \<open>restore\<close> is the \<open>.catch\<close> of the caller that puts
  \<open>supportedMimeType\<close> back when the promise is rejected.\<close>

definition initMediaSource :: "mime option option \<Rightarrow> sink_reply \<Rightarrow> demo \<Rightarrow> demo" where
  "initMediaSource restore r s =
     (if \<not> mediaSourceAvailable r
      then (case restore of Some m \<Rightarrow> s\<lparr>supportedMimeType := m\<rparr> | None \<Rightarrow> s)
      else
        s\<lparr>mediaSource := Some \<lparr>readyState = Closed, sourceBuffersLength = 0\<rparr>,
          restoreOnReject := restore,
          video := (if containerPresent r
                    then Some \<lparr>currentTime = 0, hasError = False, paused = True\<rparr>
                    else video s)\<rparr>)"

definition firstSupported :: "(mime \<Rightarrow> bool) \<Rightarrow> mime option" where
  "firstSupported supported = find supported [MP2T, MP4, WEBM]"

definition rejectInit :: "demo \<Rightarrow> demo" where
  "rejectInit s =
     (case restoreOnReject s of
        Some m \<Rightarrow> s\<lparr>supportedMimeType := m, restoreOnReject := None\<rparr>
      | None \<Rightarrow> s)"

definition onSourceOpen :: "sink_reply \<Rightarrow> demo \<Rightarrow> demo" where
  "onSourceOpen r s =
     (case firstSupported (isTypeSupported r) of
        None \<Rightarrow> rejectInit s
      | Some m \<Rightarrow>
          (case mediaSource s of
             None \<Rightarrow> rejectInit (s\<lparr>supportedMimeType := Some m\<rparr>)
           | Some ms \<Rightarrow>
               if addSourceBufferOk r
               then s\<lparr>supportedMimeType := Some m,
                      sourceBuffer := Some \<lparr>updating = False, buffered = Some [], errorHandlers = []\<rparr>,
                      mediaSource := Some (ms\<lparr>sourceBuffersLength := sourceBuffersLength ms + 1\<rparr>),
                      restoreOnReject := None,
                      sinkLog := sinkLog s @ [AddSourceBuffer m]\<rparr>
               else rejectInit (s\<lparr>supportedMimeType := Some m\<rparr>)))"

subsection \<open>Recovery\<close>

text \<open>Nothing inside the \<open>try\<close> of the first strategy of
  \<open>handleSourceBufferErrorRecovery\<close> throws (\<open>safeEndStream\<close> catches for itself), so the
  function leaves through one of the two \<open>return\<close>s whenever the sink is open.\<close>

definition handleSourceBufferErrorRecovery :: "sink_reply \<Rightarrow> demo \<Rightarrow> demo" where
  "handleSourceBufferErrorRecovery r s =
     (case (sourceBuffer s, mediaSource s) of
        (Some sb, Some ms) \<Rightarrow>
          if readyState ms = Opened then
            if updating sb
            then setTimeout RecoveryTask 1000 (s\<lparr>streamQueue := []\<rparr>)
            else safeEndStream r (s\<lparr>streamQueue := []\<rparr>)
          else setTimeout ReinitTask 2000 (stopStreaming r s)
      | _ \<Rightarrow> setTimeout ReinitTask 2000 (stopStreaming r s))"

definition reinit :: "sink_reply \<Rightarrow> demo \<Rightarrow> demo" where
  "reinit r s = (if isStreaming s then initMediaSource None r s else s)"

definition handleFormatIncompatibility :: "sink_reply \<Rightarrow> demo \<Rightarrow> demo" where
  "handleFormatIncompatibility r s =
     (if supportedMimeType s = Some MP2T
      then setTimeout ReinitMp4Task 2000 (stopStreaming r s)
      else stopStreaming r s)"

definition reinitMp4 :: "sink_reply \<Rightarrow> demo \<Rightarrow> demo" where
  "reinitMp4 r s =
     (if isStreaming s
      then initMediaSource (Some (supportedMimeType s)) r (s\<lparr>supportedMimeType := Some MP4\<rparr>)
      else s)"

definition handleBufferQuotaExceeded :: "sink_reply \<Rightarrow> demo \<Rightarrow> demo" where
  "handleBufferQuotaExceeded r s =
     (case sourceBuffer s of
        None \<Rightarrow> stopStreaming r s
      | Some sb \<Rightarrow>
          (case buffered sb of
             None \<Rightarrow> stopStreaming r s
           | Some ranges \<Rightarrow>
               if length ranges > 1 then
                 let removeEnd = fst (ranges ! 1) in
                 if removeOk r
                 then setTimeout ProcessStreamQueueTask 100
                        (s\<lparr>sourceBuffer := Some (sb\<lparr>updating := True\<rparr>),
                           sinkLog := sinkLog s @ [Remove 0 removeEnd]\<rparr>)
                 else stopStreaming r s
               else stopStreaming r s))"

definition handleAppendError :: "dom_error \<Rightarrow> chunk \<Rightarrow> sink_reply \<Rightarrow> demo \<Rightarrow> demo" where
  "handleAppendError err c r s =
     (case err of
        QuotaExceededError \<Rightarrow> handleBufferQuotaExceeded r s
      | InvalidStateError \<Rightarrow> handleSourceBufferErrorRecovery r s
      | NotSupportedError \<Rightarrow> handleFormatIncompatibility r s
      | OtherError \<Rightarrow> handleSourceBufferErrorRecovery r s)"

definition logPerformanceStats :: "sink_reply \<Rightarrow> demo \<Rightarrow> demo" where
  "logPerformanceStats r s =
     (if consecutiveErrors (monitor s) > 5 then handleSourceBufferErrorRecovery r s else s)"

subsection \<open>The queue\<close>

definition sinkUnusable :: "demo \<Rightarrow> bool" where
  "sinkUnusable s =
     (case (sourceBuffer s, mediaSource s) of
        (Some sb, Some ms) \<Rightarrow> readyState ms \<noteq> Opened
      | _ \<Rightarrow> True)"

definition sbUpdating :: "demo \<Rightarrow> bool" where
  "sbUpdating s = (case sourceBuffer s of Some sb \<Rightarrow> updating sb | None \<Rightarrow> False)"

definition videoHasError :: "demo \<Rightarrow> bool" where
  "videoHasError s = (case video s of Some v \<Rightarrow> hasError v | None \<Rightarrow> False)"

definition addErrorHandler :: "nat \<Rightarrow> demo \<Rightarrow> demo" where
  "addErrorHandler h s =
     (case sourceBuffer s of
        Some sb \<Rightarrow> s\<lparr>sourceBuffer := Some (sb\<lparr>errorHandlers := errorHandlers sb @ [h]\<rparr>)\<rparr>
      | None \<Rightarrow> s)"

definition removeErrorHandler :: "nat \<Rightarrow> demo \<Rightarrow> demo" where
  "removeErrorHandler h s =
     (case sourceBuffer s of
        Some sb \<Rightarrow> s\<lparr>sourceBuffer := Some (sb\<lparr>errorHandlers := removeAll h (errorHandlers sb)\<rparr>)\<rparr>
      | None \<Rightarrow> s)"

definition processStreamQueue :: "sink_reply \<Rightarrow> demo \<Rightarrow> demo" where
  "processStreamQueue r s =
     (if sinkUnusable s then s\<lparr>streamQueue := []\<rparr>
      else if sbUpdating s \<or> length (streamQueue s) = 0 then s
      else if videoHasError s then stopStreaming r s
      else if shouldWait (analyzeBufferHealth s)
      then setTimeout ProcessStreamQueueTask (waitTime (analyzeBufferHealth s)) s
      else
        (case streamQueue s of
           [] \<Rightarrow> s
         | c # rest \<Rightarrow>
             setTimeout (AppendTask c (nextHandler s)) 0
               (addErrorHandler (nextHandler s)
                  (s\<lparr>streamQueue := rest,
                     monitor := (monitor s)
                       \<lparr>totalChunksAdded := totalChunksAdded (monitor s) + 1,
                        monitorBytesProcessed := monitorBytesProcessed (monitor s) + length (snd c)\<rparr>,
                     nextHandler := nextHandler s + 1\<rparr>))))"

text \<open>\<open>addChunkToStream\<close> and the \<open>originalAddChunk\<close> of \<open>addChunkToStreamWithRetry\<close>
  do the same to the state: refuse when the session is not streaming, else push at the back
  of the queue and run \<open>processStreamQueue\<close>.\<close>

definition addChunkToStream :: "chunk \<Rightarrow> sink_reply \<Rightarrow> demo \<Rightarrow> demo" where
  "addChunkToStream chunkData r s =
     (if \<not> isStreaming s then s
      else processStreamQueue r
             (s\<lparr>streamQueue := streamQueue s @ [chunkData], pushLog := pushLog s @ [chunkData]\<rparr>))"

text \<open>The callback of \<open>setTimeout(..., 0)\<close> in \<open>processStreamQueue\<close>. After an accepted
  append the code reads \<open>this.sourceBuffer?.buffered\<close> when the video is paused; a throw
  there lands in the same \<open>catch (appendError)\<close>. The callback looks at the video
  element that \<open>processStreamQueue\<close> found when it set the timer; the model reads the
  element of the current state, which \<open>Observe\<close> may have set to anything in between.\<close>

definition appendChunk :: "chunk \<Rightarrow> nat \<Rightarrow> sink_reply \<Rightarrow> demo \<Rightarrow> demo" where
  "appendChunk c h r s =
     (case (case sourceBuffer s of None \<Rightarrow> None | Some sb \<Rightarrow> appendReply r) of
        Some err \<Rightarrow> handleAppendError err c r (removeErrorHandler h s)
      | None \<Rightarrow>
          let s1 = (case sourceBuffer s of
                      None \<Rightarrow> s
                    | Some sb \<Rightarrow> s\<lparr>sourceBuffer := Some (sb\<lparr>updating := True\<rparr>),
                                  sinkLog := sinkLog s @ [AppendBuffer c]\<rparr>);
              s2 = removeErrorHandler h
                     (s1\<lparr>monitor := (monitor s1)
                          \<lparr>totalChunksProcessed := totalChunksProcessed (monitor s1) + 1,
                           consecutiveErrors := 0,
                           bufferHealthGood := True\<rparr>\<rparr>)
          in case video s2 of
               None \<Rightarrow> s2
             | Some v \<Rightarrow>
                 if \<not> paused v then s2
                 else
                   (case sourceBuffer s2 of
                      None \<Rightarrow> s2
                    | Some sb \<Rightarrow>
                        (case buffered sb of
                           None \<Rightarrow> handleAppendError InvalidStateError c r (removeErrorHandler h s2)
                         | Some ranges \<Rightarrow>
                             if length ranges > 0 \<and> snd (ranges ! (length ranges - 1)) \<ge> 3
                             then setTimeout AutoPlayTask 500 s2
                             else s2)))"

text \<open>The \<open>errorHandler\<close> closure that \<open>processStreamQueue\<close> registers for one append.\<close>

definition errorHandler :: "nat \<Rightarrow> sink_reply \<Rightarrow> demo \<Rightarrow> demo" where
  "errorHandler h r s =
     (let s1 = removeErrorHandler h s in
      handleSourceBufferErrorRecovery r
        (s1\<lparr>monitor := (monitor s1)
             \<lparr>lastErrorTime := Some (now r),
              consecutiveErrors := consecutiveErrors (monitor s1) + 1,
              bufferHealthGood := False\<rparr>\<rparr>))"

subsection \<open>Turns of the event loop\<close>

text \<open>
  A turn is one of: the producer opens the sink (\<open>await this.initMediaSource()\<close>) or
  pushes a chunk; a pending timer fires; the sink fires
  \<open>updateend\<close>, \<open>error\<close> or \<open>sourceopen\<close>; the video element fires \<open>error\<close>; the user
  presses the stop button; the performance monitor ticks; the producer reaches the
  \<open>finally\<close> of its attempt; or the browser changes what the code can observe
  (\<open>Observe\<close>). Timers whose callbacks only poll, log or start playback do not touch the
  fields of \<open>demo\<close>; \<open>AutoPlayTask\<close> stands for the one \<open>processStreamQueue\<close> sets. A timer may fire only when no timer that was set earlier
  with an equal or smaller delay is still pending, which is the ordering rule of
  \<open>setTimeout\<close>. A turn that is not enabled leaves the state as it is.
\<close>

record observation =
  obsUpdating :: bool
  obsBuffered :: "(real \<times> real) list option"
  obsReadyState :: readyState
  obsSourceBuffersLength :: nat
  obsVideo :: "videoElement option"
  obsMemory :: "(nat \<times> nat) option"

datatype event =
    ProducerInit
  | Push chunk
  | Fire nat
  | UpdateEnd
  | SourceBufferError
  | SourceOpen
  | VideoError
  | StopButton
  | Tick
  | ProducerFinally
  | Observe observation

definition observe :: "observation \<Rightarrow> demo \<Rightarrow> demo" where
  "observe ob s =
     s\<lparr>sourceBuffer :=
         (case sourceBuffer s of
            Some sb \<Rightarrow> Some (sb\<lparr>updating := obsUpdating ob, buffered := obsBuffered ob\<rparr>)
          | None \<Rightarrow> None),
       mediaSource :=
         (case mediaSource s of
            Some ms \<Rightarrow> Some (ms\<lparr>readyState := obsReadyState ob,
                                 sourceBuffersLength := obsSourceBuffersLength ob\<rparr>)
          | None \<Rightarrow> None),
       video := obsVideo ob,
       performanceMemory := obsMemory ob\<rparr>"

definition runTask :: "task \<Rightarrow> sink_reply \<Rightarrow> demo \<Rightarrow> demo" where
  "runTask t r s =
     (case t of
        ProcessStreamQueueTask \<Rightarrow> processStreamQueue r s
      | AppendTask c h \<Rightarrow> appendChunk c h r s
      | RecoveryTask \<Rightarrow> handleSourceBufferErrorRecovery r s
      | CleanupTask \<Rightarrow> cleanupMediaSource r s
      | ReinitTask \<Rightarrow> reinit r s
      | ReinitMp4Task \<Rightarrow> reinitMp4 r s
      | AutoPlayTask \<Rightarrow> s)"

definition mayFire :: "nat \<Rightarrow> (nat \<times> task) list \<Rightarrow> bool" where
  "mayFire i ts = (i < length ts \<and> list_all (\<lambda>t. fst t > fst (ts ! i)) (take i ts))"

definition fire :: "nat \<Rightarrow> sink_reply \<Rightarrow> demo \<Rightarrow> demo" where
  "fire i r s =
     (if mayFire i (timers s)
      then runTask (snd (timers s ! i)) r (s\<lparr>timers := take i (timers s) @ drop (Suc i) (timers s)\<rparr>)
      else s)"

definition onSourceBufferError :: "sink_reply \<Rightarrow> demo \<Rightarrow> demo" where
  "onSourceBufferError r s =
     (case sourceBuffer s of
        None \<Rightarrow> handleSourceBufferErrorRecovery r s
      | Some sb \<Rightarrow>
          fold (\<lambda>h. errorHandler h r) (errorHandlers sb) (handleSourceBufferErrorRecovery r s))"

definition step :: "event \<times> sink_reply \<Rightarrow> demo \<Rightarrow> demo" where
  "step er s =
     (case er of (e, r) \<Rightarrow>
        (case e of
           ProducerInit \<Rightarrow> initMediaSource None r s
         | Push c \<Rightarrow> addChunkToStream c r s
         | Fire i \<Rightarrow> fire i r s
         | UpdateEnd \<Rightarrow> processStreamQueue r s
         | SourceBufferError \<Rightarrow> onSourceBufferError r s
         | SourceOpen \<Rightarrow> onSourceOpen r s
         | VideoError \<Rightarrow> stopStreaming r s
         | StopButton \<Rightarrow> stopStreaming r s
         | Tick \<Rightarrow> logPerformanceStats r s
         | ProducerFinally \<Rightarrow> s\<lparr>isStreaming := False\<rparr>
         | Observe ob \<Rightarrow> observe ob s))"

definition run :: "(event \<times> sink_reply) list \<Rightarrow> demo \<Rightarrow> demo" where
  "run es s = fold step es s"

text \<open>What the sink has accepted, and what is on its way: the chunks of the pending
  deferred appends, oldest first.\<close>

fun appended :: "sink_call list \<Rightarrow> chunk list" where
  "appended [] = []"
| "appended (AppendBuffer c # calls) = c # appended calls"
| "appended (call # calls) = appended calls"

fun removals :: "sink_call list \<Rightarrow> (real \<times> real) list" where
  "removals [] = []"
| "removals (Remove a b # calls) = (a, b) # removals calls"
| "removals (call # calls) = removals calls"

fun inflight :: "(nat \<times> task) list \<Rightarrow> chunk list" where
  "inflight [] = []"
| "inflight ((d, AppendTask c h) # ts) = c # inflight ts"
| "inflight (t # ts) = inflight ts"

text \<open>The state at the start of an attempt, as \<open>realtimeConversion\<close> resets it, before
  the sink is opened.\<close>

definition freshSession :: demo where
  "freshSession =
     \<lparr>isStreaming = True, streamQueue = [], sourceBuffer = None, mediaSource = None,
      supportedMimeType = None,
      monitor = \<lparr>totalChunksAdded = 0, totalChunksProcessed = 0, monitorBytesProcessed = 0,
                 lastErrorTime = None, consecutiveErrors = 0, bufferHealthGood = True\<rparr>,
      video = None, performanceMemory = None, timers = [], nextHandler = 0,
      restoreOnReject = None, sinkLog = [], pushLog = []\<rparr>"


section \<open>Notions used to state the properties of the sink side\<close>

text \<open>The chunks that are still to be appended: those of the pending deferred appends,
  then the queue. Two states are compared by what the sink accepted and what was pushed
  between them.\<close>

fun isAppend :: "task \<Rightarrow> bool" where
  "isAppend (AppendTask c h) = True"
| "isAppend t = False"

definition pending :: "demo \<Rightarrow> chunk list" where
  "pending s = inflight (timers s) @ streamQueue s"

text \<open>Every deferred append is set with delay 0; this holds in every state a session
  reaches and is what makes the ordering rule of the timers apply to them.\<close>

definition appendDelaysZero :: "(nat \<times> task) list \<Rightarrow> bool" where
  "appendDelaysZero ts = list_all (\<lambda>t. isAppend (snd t) \<longrightarrow> fst t = 0) ts"

text \<open>Three relations between the state before and after a piece of code: \<open>dropOnly\<close>
  (nothing appended or pushed, the deferred appends untouched, chunks only removed from the
  queue), \<open>keepsOrder\<close> (nothing appended or pushed, the chunks still to be appended are a
  subsequence of the former ones) and \<open>flows\<close> (what was appended, followed by what is
  still to be appended, is a subsequence of what was to be appended followed by what was
  pushed). \<open>appends c\<close> is \<open>keepsOrder\<close> except that \<open>c\<close> may have been appended.\<close>

definition dropOnly :: "demo \<Rightarrow> demo \<Rightarrow> bool" where
  "dropOnly s s' =
     (appended (sinkLog s') = appended (sinkLog s) \<and> pushLog s' = pushLog s
      \<and> inflight (timers s') = inflight (timers s)
      \<and> subseq (streamQueue s') (streamQueue s)
      \<and> (appendDelaysZero (timers s) \<longrightarrow> appendDelaysZero (timers s'))
      \<and> (\<not> isStreaming s \<longrightarrow> \<not> isStreaming s'))"

definition keepsOrder :: "demo \<Rightarrow> demo \<Rightarrow> bool" where
  "keepsOrder s s' =
     (appended (sinkLog s') = appended (sinkLog s) \<and> pushLog s' = pushLog s
      \<and> subseq (pending s') (pending s)
      \<and> (appendDelaysZero (timers s) \<longrightarrow> appendDelaysZero (timers s'))
      \<and> (\<not> isStreaming s \<longrightarrow> \<not> isStreaming s'))"

definition flows :: "demo \<Rightarrow> demo \<Rightarrow> bool" where
  "flows s s' =
     ((\<exists>A P. appended (sinkLog s') = appended (sinkLog s) @ A \<and> pushLog s' = pushLog s @ P
             \<and> subseq (A @ pending s') (pending s @ P))
      \<and> (appendDelaysZero (timers s) \<longrightarrow> appendDelaysZero (timers s'))
      \<and> (\<not> isStreaming s \<longrightarrow> \<not> isStreaming s'))"

definition appends :: "chunk \<Rightarrow> demo \<Rightarrow> demo \<Rightarrow> bool" where
  "appends c s s' =
     ((appended (sinkLog s') = appended (sinkLog s) \<or> appended (sinkLog s') = appended (sinkLog s) @ [c])
      \<and> pushLog s' = pushLog s
      \<and> subseq (pending s') (pending s)
      \<and> (appendDelaysZero (timers s) \<longrightarrow> appendDelaysZero (timers s'))
      \<and> (\<not> isStreaming s \<longrightarrow> \<not> isStreaming s'))"

text \<open>What the sink accepted, and what was pushed, between an earlier state and a later
  one.\<close>

definition appendedSince :: "demo \<Rightarrow> demo \<Rightarrow> chunk list" where
  "appendedSince s s' = drop (length (appended (sinkLog s))) (appended (sinkLog s'))"

definition pushedSince :: "demo \<Rightarrow> demo \<Rightarrow> chunk list" where
  "pushedSince s s' = drop (length (pushLog s)) (pushLog s')"



subsection \<open>Sample states and runs\<close>

definition openBuffer :: sourceBufferObj where
  "openBuffer = \<lparr>updating = False, buffered = Some [], errorHandlers = []\<rparr>"

definition openSource :: mediaSourceObj where
  "openSource = \<lparr>readyState = Opened, sourceBuffersLength = 1\<rparr>"




definition twoSegments :: demo where
  "twoSegments =
     freshSession\<lparr>sourceBuffer := Some (openBuffer\<lparr>buffered := Some [(0, 8), (8, 16)]\<rparr>),
       mediaSource := Some openSource, streamQueue := [(3, [1])], pushLog := [(3, [1])]\<rparr>"

definition oneSegment :: demo where
  "oneSegment =
     freshSession\<lparr>sourceBuffer := Some (openBuffer\<lparr>buffered := Some [(0, 8)]\<rparr>),
       mediaSource := Some openSource, streamQueue := [(2, [1])], pushLog := [(2, [1])]\<rparr>"

definition sixErrors :: demo where
  "sixErrors = freshSession\<lparr>monitor := (monitor freshSession)\<lparr>consecutiveErrors := 6\<rparr>\<rparr>"

definition stalledQueue :: demo where
  "stalledQueue =
     freshSession\<lparr>sourceBuffer := Some (openBuffer\<lparr>updating := True\<rparr>),
       mediaSource := Some openSource,
       streamQueue := [(0, [1]), (1, [2])], pushLog := [(0, [1]), (1, [2])]\<rparr>"

definition agreeable :: sink_reply where
  "agreeable = \<lparr>appendReply = None, removeOk = True, removeSourceBufferOk = True,
     endOfStreamOk = True, addSourceBufferOk = True, mediaSourceAvailable = True,
     containerPresent = False, isTypeSupported = (\<lambda>m. True), now = 0\<rparr>"

definition sinkOpening :: observation where
  "sinkOpening = \<lparr>obsUpdating = False, obsBuffered = Some [], obsReadyState = Opened,
     obsSourceBuffersLength = 0, obsVideo = None, obsMemory = None\<rparr>"

definition sinkIdle :: "(real \<times> real) list \<Rightarrow> observation" where
  "sinkIdle ranges = \<lparr>obsUpdating = False, obsBuffered = Some ranges, obsReadyState = Opened,
     obsSourceBuffersLength = 1, obsVideo = None, obsMemory = None\<rparr>"

definition openTheSink :: "(event \<times> sink_reply) list" where
  "openTheSink =
     [(ProducerInit, agreeable), (Observe sinkOpening, agreeable), (SourceOpen, agreeable)]"

text \<open>Five chunks are shifted before any deferred append has run, so five \<open>errorHandler\<close>s
  are registered when the buffer, now updating, fires \<open>error\<close>.\<close>

definition fiveFailures :: "(event \<times> sink_reply) list" where
  "fiveFailures =
     openTheSink @
     [(Push (0, [1]), agreeable), (Push (1, [1]), agreeable), (Push (2, [1]), agreeable),
      (Push (3, [1]), agreeable), (Push (4, [1]), agreeable),
      (Observe ((sinkIdle [])\<lparr>obsUpdating := True\<rparr>), agreeable),
      (SourceBufferError, agreeable)]"

definition sixFailures :: "(event \<times> sink_reply) list" where
  "sixFailures =
     openTheSink @
     [(Push (0, [1]), agreeable), (Push (1, [1]), agreeable), (Push (2, [1]), agreeable),
      (Push (3, [1]), agreeable), (Push (4, [1]), agreeable), (Push (5, [1]), agreeable),
      (Observe ((sinkIdle [])\<lparr>obsUpdating := True\<rparr>), agreeable),
      (SourceBufferError, agreeable)]"

definition twoAppends :: "(event \<times> sink_reply) list" where
  "twoAppends =
     openTheSink @
     [(Push (0, [1]), agreeable), (Fire 0, agreeable),
      (Observe (sinkIdle [(0, 8)]), agreeable),
      (Push (1, [2]), agreeable), (Fire 0, agreeable)]"

section \<open>Properties of the engine wrapper\<close>

text \<open>
  C9. For every input file name and every state of the processor, \<open>getVideoDuration\<close>
  returns the fixed value 60, both when the probe command succeeds and when it throws
  (whatever the reason: engine failure, missing engine, missing initialisation); the
  result does not depend on the input.
\<close>

theorem getVideoDuration_constant:
  "fst (getVideoDuration p inputFile execOk) = 60"
  by (simp add: getVideoDuration_def split: prod.split sum.split)

text \<open>
  C10. While \<open>isInitialized\<close> is false, each of \<open>executeCommand\<close>, \<open>writeFile\<close>,
  \<open>readFile\<close> and \<open>deleteFile\<close> raises an error for every argument and leaves the
  processor as it was; in particular the record of engine calls is unchanged, so the
  engine is not invoked.
\<close>

theorem uninitialized_operations_raise:
  assumes "\<not> isInitialized p"
  shows "executeCommand p command execOk = (Inl NotInitialized, p)
       \<and> writeFile p filename data writeOk = (Inl NotInitialized, p)
       \<and> readFile p filename bytesReply = (Inl NotInitialized, p)
       \<and> deleteFile p filename deleteOk = (Inl NotInitialized, p)"
  using assms
  by (simp add: executeCommand_def writeFile_def readFile_def deleteFile_def)

theorem uninitialized_operations_raise_witness:
  "\<not> isInitialized (readyProcessor\<lparr>isInitialized := False\<rparr>)
   \<and> executeCommand (readyProcessor\<lparr>isInitialized := False\<rparr>) [''-version''] True
       = (Inl NotInitialized, readyProcessor\<lparr>isInitialized := False\<rparr>)
   \<and> writeFile (readyProcessor\<lparr>isInitialized := False\<rparr>) ''input.mp4'' (RawBytes [1]) True
       = (Inl NotInitialized, readyProcessor\<lparr>isInitialized := False\<rparr>)
   \<and> readFile (readyProcessor\<lparr>isInitialized := False\<rparr>) ''input.mp4'' (Some [1])
       = (Inl NotInitialized, readyProcessor\<lparr>isInitialized := False\<rparr>)
   \<and> deleteFile (readyProcessor\<lparr>isInitialized := False\<rparr>) ''input.mp4'' True
       = (Inl NotInitialized, readyProcessor\<lparr>isInitialized := False\<rparr>)
   \<and> engineCalls (snd (executeCommand (readyProcessor\<lparr>isInitialized := False\<rparr>) [''-version''] True)) = []"
proof -
  have h: "\<not> isInitialized (readyProcessor\<lparr>isInitialized := False\<rparr>)" by simp
  from uninitialized_operations_raise[OF h, of "[''-version'']" True "''input.mp4''" "RawBytes [1]"
      True "Some [1]" True]
  show ?thesis by (simp add: readyProcessor_def)
qed


section \<open>Properties of the chunk producer and the session controller\<close>


lemma addedChunks_append: "addedChunks (xs @ ys) = addedChunks xs @ addedChunks ys"
  by (induction xs rule: addedChunks.induct) simp_all

lemma attemptChunk_exec_fails:
  "\<not> execReply e \<Longrightarrow>
   attemptChunk opts e c p =
     (False, [ConvertChunk (chunkOptions opts (mimeType e) c)],
      snd (convertChunk p (chunkOptions opts (mimeType e) c) False))"
  by (simp add: attemptChunk_def convertChunk_def executeCommand_def Let_def)















text \<open>
  C5, as worded, calls a failing chunk the last one when its end time is at least
  \<open>D - W\<close>. With \<open>D = 60\<close> and \<open>W = 8\<close> the chunk of index 6 ends at 56, which is
  at least 52, and is followed by chunk 7. When its transcode keeps failing, the loop does
  not stop cleanly: it retries index 6 and raises the fatal error after the third failure.
  And a failed chunk is not re-attempted when the session has stopped streaming meanwhile:
  in the second run chunk 2 fails once, the loop test fails next and the loop ends.
\<close>

theorem early_chunk_failure_is_fatal:
  "int 6 * chunkDuration + chunkDuration \<ge> 60 - chunkDuration
   \<and> int 6 * chunkDuration + chunkDuration < 60
   \<and> fst (snd (chunkLoop 60 sampleOptions failFromSix 0 0 0 readyProcessor)) = TooManyErrors
   \<and> fst (snd (chunkLoop 60 sampleOptions stopAfterFailure 0 0 0 readyProcessor)) = LoopDone
   \<and> map startTime (requests (fst (chunkLoop 60 sampleOptions stopAfterFailure 0 0 0 readyProcessor)))
       = [0, 8, 16]"
  by code_simp






text \<open>
  C5 (amended). Take an iteration of the chunk loop that is entered (the chunk starts before
  \<open>D\<close>, the session is streaming, fewer than 3 consecutive errors) and whose transcode
  fails. If the chunk is the last one, which the code tests as start time \<open>\<ge> D - W\<close>
  (so its end time is \<open>\<ge> D\<close>), production stops cleanly with this one request and no
  fatal error. Otherwise the loop sleeps 1000 ms and goes on with the same chunk index and
  the error counter increased by one; if the session is still streaming and the counter has
  thereby reached 3, the loop raises the fatal error.
\<close>

theorem chunk_failure_policy:
  assumes "int c * chunkDuration < D" "streaming (env n)" "errs < maxConsecutiveErrors"
    and "\<not> execReply (env n)"
  shows "(int c * chunkDuration \<ge> D - chunkDuration \<longrightarrow>
            chunkLoop D opts env n c errs p =
              ([ConvertChunk (chunkOptions opts (mimeType (env n)) c)], LastChunkIgnored,
               snd (convertChunk p (chunkOptions opts (mimeType (env n)) c) False)))
       \<and> (int c * chunkDuration < D - chunkDuration \<longrightarrow>
            chunkLoop D opts env n c errs p =
              prepend [ConvertChunk (chunkOptions opts (mimeType (env n)) c), Sleep 1000]
                (chunkLoop D opts env (n + 1) c (errs + 1)
                   (snd (convertChunk p (chunkOptions opts (mimeType (env n)) c) False))))
       \<and> (int c * chunkDuration < D - chunkDuration \<and> streaming (env (n + 1))
            \<and> errs + 1 = maxConsecutiveErrors \<longrightarrow>
            chunkLoop D opts env n c errs p =
              ([ConvertChunk (chunkOptions opts (mimeType (env n)) c), Sleep 1000], TooManyErrors,
               snd (convertChunk p (chunkOptions opts (mimeType (env n)) c) False)))"
proof -
  let ?copts = "chunkOptions opts (mimeType (env n)) c"
  let ?p1 = "snd (convertChunk p ?copts False)"
  have a: "attemptChunk opts (env n) c p = (False, [ConvertChunk ?copts], ?p1)"
    using assms(4) by (rule attemptChunk_exec_fails)
  have last: "chunkLoop D opts env n c errs p = ([ConvertChunk ?copts], LastChunkIgnored, ?p1)"
    if "int c * chunkDuration \<ge> D - chunkDuration"
    using assms(1-3) that by (subst chunkLoop.simps) (simp add: a)
  have retry: "chunkLoop D opts env n c errs p =
      prepend [ConvertChunk ?copts, Sleep 1000] (chunkLoop D opts env (n + 1) c (errs + 1) ?p1)"
    if "int c * chunkDuration < D - chunkDuration"
    using assms(1-3) that by (subst chunkLoop.simps) (simp add: a)
  have fatal: "chunkLoop D opts env (n + 1) c (errs + 1) ?p1 = ([], TooManyErrors, ?p1)"
    if "streaming (env (n + 1))" "errs + 1 = maxConsecutiveErrors"
    using assms(1) that by (subst chunkLoop.simps) simp
  show ?thesis
    using last retry fatal by (simp add: prepend_def)
qed

theorem chunk_failure_policy_witness:
  "int 6 * chunkDuration < 60 \<and> streaming (failFromSix 8) \<and> 2 < maxConsecutiveErrors
   \<and> \<not> execReply (failFromSix 8) \<and> int 6 * chunkDuration < 60 - chunkDuration
   \<and> streaming (failFromSix (8 + 1)) \<and> 2 + 1 = maxConsecutiveErrors
   \<and> fst (snd (chunkLoop 60 sampleOptions failFromSix 8 6 2 readyProcessor)) = TooManyErrors
   \<and> int 7 * chunkDuration < 60 \<and> int 7 * chunkDuration \<ge> 60 - chunkDuration
   \<and> fst (snd (chunkLoop 60 sampleOptions failFromSix 8 7 2 readyProcessor)) = LastChunkIgnored"
proof -
  have h: "int 6 * chunkDuration < 60" "streaming (failFromSix 8)" "2 < maxConsecutiveErrors"
    "\<not> execReply (failFromSix 8)"
    and h7: "int 7 * chunkDuration < 60"
    and more: "int 6 * chunkDuration < 60 - chunkDuration" "streaming (failFromSix (8 + 1))"
      "2 + 1 = maxConsecutiveErrors" "int 7 * chunkDuration \<ge> 60 - chunkDuration"
    by (simp_all add: chunkDuration_def failFromSix_def goodIteration_def maxConsecutiveErrors_def)
  have "chunkLoop 60 sampleOptions failFromSix 8 6 2 readyProcessor =
      ([ConvertChunk (chunkOptions sampleOptions (mimeType (failFromSix 8)) 6), Sleep 1000],
       TooManyErrors,
       snd (convertChunk readyProcessor (chunkOptions sampleOptions (mimeType (failFromSix 8)) 6) False))"
    using chunk_failure_policy[where env = failFromSix and n = 8 and opts = sampleOptions
         and p = readyProcessor, OF h] more by blast
  moreover have "chunkLoop 60 sampleOptions failFromSix 8 7 2 readyProcessor =
      ([ConvertChunk (chunkOptions sampleOptions (mimeType (failFromSix 8)) 7)], LastChunkIgnored,
       snd (convertChunk readyProcessor (chunkOptions sampleOptions (mimeType (failFromSix 8)) 7) False))"
    using chunk_failure_policy[where env = failFromSix and n = 8 and opts = sampleOptions
         and p = readyProcessor, OF h7 h(2-4)] more by blast
  ultimately show ?thesis using h h7 more by simp
qed








section \<open>Properties of the sink side\<close>

subsection \<open>How each piece of code moves chunks\<close>

lemma appended_append: "appended (xs @ ys) = appended xs @ appended ys"
  by (induction xs rule: appended.induct) simp_all

lemma inflight_append: "inflight (xs @ ys) = inflight xs @ inflight ys"
  by (induction xs rule: inflight.induct) simp_all

lemma dropOnly_refl: "dropOnly s s"
  by (simp add: dropOnly_def)

lemma dropOnly_trans: "dropOnly s s' \<Longrightarrow> dropOnly s' s'' \<Longrightarrow> dropOnly s s''"
  unfolding dropOnly_def by (auto intro: subseq_order.order_trans)

lemma dropOnly_setTimeout:
  "\<not> isAppend t \<Longrightarrow> dropOnly s (setTimeout t d s)"
  by (cases t) (simp_all add: dropOnly_def setTimeout_def inflight_append appendDelaysZero_def)

lemma dropOnly_cleanupMediaSource: "dropOnly s (cleanupMediaSource r s)"
  by (simp add: dropOnly_def cleanupMediaSource_def setTimeout_def inflight_append appended_append
      appendDelaysZero_def Let_def split: option.split)

lemma dropOnly_clear: "dropOnly s (s\<lparr>streamQueue := []\<rparr>)"
  by (simp add: dropOnly_def)

lemma dropOnly_stopStreaming: "dropOnly s (stopStreaming r s)"
  unfolding stopStreaming_def
  by (rule dropOnly_trans[OF _ dropOnly_cleanupMediaSource]) (simp add: dropOnly_def)

lemma dropOnly_safeEndStream: "dropOnly s (safeEndStream r s)"
  by (simp add: dropOnly_def safeEndStream_def appended_append split: option.split)

lemma dropOnly_initMediaSource: "dropOnly s (initMediaSource restore r s)"
  by (simp add: dropOnly_def initMediaSource_def split: option.split)

lemma dropOnly_rejectInit: "dropOnly s (rejectInit s)"
  by (simp add: dropOnly_def rejectInit_def split: option.split)

lemma dropOnly_onSourceOpen: "dropOnly s (onSourceOpen r s)"
  by (simp add: dropOnly_def onSourceOpen_def rejectInit_def appended_append split: option.split)

lemma dropOnly_recovery: "dropOnly s (handleSourceBufferErrorRecovery r s)"
  unfolding handleSourceBufferErrorRecovery_def
  by (auto split: option.split prod.split
      intro!: dropOnly_trans[OF dropOnly_stopStreaming dropOnly_setTimeout]
              dropOnly_trans[OF dropOnly_clear dropOnly_setTimeout]
              dropOnly_trans[OF dropOnly_clear dropOnly_safeEndStream])

lemma dropOnly_reinit: "dropOnly s (reinit r s)"
  by (simp add: reinit_def dropOnly_initMediaSource dropOnly_refl)

lemma dropOnly_handleFormatIncompatibility: "dropOnly s (handleFormatIncompatibility r s)"
  unfolding handleFormatIncompatibility_def
  by (auto intro!: dropOnly_trans[OF dropOnly_stopStreaming dropOnly_setTimeout] dropOnly_stopStreaming)

lemma dropOnly_reinitMp4: "dropOnly s (reinitMp4 r s)"
proof -
  have "dropOnly s (s\<lparr>supportedMimeType := Some MP4\<rparr>)" by (simp add: dropOnly_def)
  then show ?thesis
    unfolding reinitMp4_def
    by (auto intro: dropOnly_refl dropOnly_trans[OF _ dropOnly_initMediaSource])
qed

lemma dropOnly_removal:
  "dropOnly s (setTimeout ProcessStreamQueueTask 100
     (s\<lparr>sourceBuffer := b, sinkLog := sinkLog s @ [Remove 0 e]\<rparr>))"
  by (simp add: dropOnly_def setTimeout_def inflight_append appended_append appendDelaysZero_def)

lemma dropOnly_handleBufferQuotaExceeded: "dropOnly s (handleBufferQuotaExceeded r s)"
  by (simp add: handleBufferQuotaExceeded_def Let_def dropOnly_stopStreaming dropOnly_removal
      split: option.split)

lemma dropOnly_handleAppendError: "dropOnly s (handleAppendError err c r s)"
  unfolding handleAppendError_def
  by (cases err)
     (simp_all add: dropOnly_recovery dropOnly_handleBufferQuotaExceeded
        dropOnly_handleFormatIncompatibility)

lemma dropOnly_logPerformanceStats: "dropOnly s (logPerformanceStats r s)"
  by (simp add: logPerformanceStats_def dropOnly_recovery dropOnly_refl)

lemma dropOnly_removeErrorHandler: "dropOnly s (removeErrorHandler h s)"
  by (simp add: removeErrorHandler_def dropOnly_def split: option.split)

lemma dropOnly_addErrorHandler: "dropOnly s (addErrorHandler h s)"
  by (simp add: addErrorHandler_def dropOnly_def split: option.split)

lemma dropOnly_monitor: "dropOnly s (s\<lparr>monitor := m\<rparr>)"
  by (simp add: dropOnly_def)

lemma dropOnly_errorHandler: "dropOnly s (errorHandler h r s)"
  unfolding errorHandler_def Let_def
  by (rule dropOnly_trans[OF dropOnly_removeErrorHandler
        dropOnly_trans[OF dropOnly_monitor dropOnly_recovery]])

lemma dropOnly_fold_errorHandler: "dropOnly s (fold (\<lambda>h. errorHandler h r) hs s)"
  by (induction hs arbitrary: s)
     (auto intro: dropOnly_refl dropOnly_trans[OF dropOnly_errorHandler])

lemma dropOnly_onSourceBufferError: "dropOnly s (onSourceBufferError r s)"
  unfolding onSourceBufferError_def
  by (auto split: option.split
      intro!: dropOnly_recovery dropOnly_trans[OF dropOnly_recovery dropOnly_fold_errorHandler])

lemma dropOnly_observe: "dropOnly s (observe ob s)"
  by (simp add: observe_def dropOnly_def)

lemma dropOnly_keepsOrder: "dropOnly s s' \<Longrightarrow> keepsOrder s s'"
  by (auto simp: dropOnly_def keepsOrder_def pending_def intro: list_emb_append_mono)

lemma keepsOrder_trans: "keepsOrder s s' \<Longrightarrow> keepsOrder s' s'' \<Longrightarrow> keepsOrder s s''"
  unfolding keepsOrder_def by (auto intro: subseq_order.order_trans)

lemma keepsOrder_flows: "keepsOrder s s' \<Longrightarrow> flows s s'"
  unfolding keepsOrder_def flows_def
  by (auto intro!: exI[of _ "[]"])

lemma flows_refl: "flows s s"
  by (simp add: flows_def)

lemma flows_trans:
  assumes "flows s s'" "flows s' s''"
  shows "flows s s''"
proof -
  from assms(1) obtain A1 P1 where 1: "appended (sinkLog s') = appended (sinkLog s) @ A1"
    "pushLog s' = pushLog s @ P1" "subseq (A1 @ pending s') (pending s @ P1)"
    unfolding flows_def by blast
  from assms(2) obtain A2 P2 where 2: "appended (sinkLog s'') = appended (sinkLog s') @ A2"
    "pushLog s'' = pushLog s' @ P2" "subseq (A2 @ pending s'') (pending s' @ P2)"
    unfolding flows_def by blast
  have a: "subseq (A1 @ A2 @ pending s'') (A1 @ pending s' @ P2)"
    by (rule list_emb_append_mono) (simp, rule 2(3))
  have "subseq ((A1 @ pending s') @ P2) ((pending s @ P1) @ P2)"
    by (rule list_emb_append_mono) (rule 1(3), simp)
  then have b: "subseq (A1 @ pending s' @ P2) (pending s @ P1 @ P2)" by simp
  have "subseq ((A1 @ A2) @ pending s'') (pending s @ (P1 @ P2))"
    using subseq_order.order_trans[OF a b] by simp
  then have "\<exists>A P. appended (sinkLog s'') = appended (sinkLog s) @ A \<and> pushLog s'' = pushLog s @ P
             \<and> subseq (A @ pending s'') (pending s @ P)"
    using 1(1,2) 2(1,2) by (intro exI[of _ "A1 @ A2"] exI[of _ "P1 @ P2"]) simp
  then show ?thesis using assms unfolding flows_def by blast
qed

lemma keepsOrder_processStreamQueue: "keepsOrder s (processStreamQueue r s)"
proof -
  have shift: "keepsOrder s
      (setTimeout (AppendTask c (nextHandler s)) 0
         (addErrorHandler (nextHandler s) (s\<lparr>streamQueue := rest, monitor := m, nextHandler := n\<rparr>)))"
    if "streamQueue s = c # rest" for c rest m n
    using that
    by (simp add: keepsOrder_def setTimeout_def addErrorHandler_def pending_def inflight_append
        appendDelaysZero_def split: option.split)
  have wait: "keepsOrder s (setTimeout ProcessStreamQueueTask d s)" for d
    by (rule dropOnly_keepsOrder[OF dropOnly_setTimeout]) simp
  note basic = dropOnly_keepsOrder[OF dropOnly_clear] dropOnly_keepsOrder[OF dropOnly_refl]
    dropOnly_keepsOrder[OF dropOnly_stopStreaming]
  show ?thesis
  proof (cases "streamQueue s")
    case Nil
    then show ?thesis
      unfolding processStreamQueue_def by (simp add: basic)
  next
    case (Cons c rest)
    then show ?thesis
      unfolding processStreamQueue_def
      using shift[OF Cons] by (simp add: basic wait)
  qed
qed

lemma flows_addChunkToStream: "flows s (addChunkToStream c r s)"
proof (cases "isStreaming s")
  case False
  then show ?thesis by (simp add: addChunkToStream_def flows_refl)
next
  case True
  let ?s1 = "s\<lparr>streamQueue := streamQueue s @ [c], pushLog := pushLog s @ [c]\<rparr>"
  have "flows s ?s1"
    unfolding flows_def
    by (auto intro!: exI[of _ "[]"] exI[of _ "[c]"] simp: pending_def)
  moreover have "flows ?s1 (processStreamQueue r ?s1)"
    by (rule keepsOrder_flows[OF keepsOrder_processStreamQueue])
  ultimately show ?thesis
    using True by (simp add: addChunkToStream_def flows_trans)
qed

lemma appends_keepsOrder: "appends c s s' \<Longrightarrow> keepsOrder s' s'' \<Longrightarrow> appends c s s''"
  unfolding appends_def keepsOrder_def by (auto intro: subseq_order.order_trans)

lemma keepsOrder_appends: "keepsOrder s s' \<Longrightarrow> appends c s s'"
  unfolding appends_def keepsOrder_def by simp

lemma keepsOrder_handleAppendError_removed:
  "keepsOrder s (handleAppendError err c r (removeErrorHandler h s))"
  by (rule dropOnly_keepsOrder[OF dropOnly_trans[OF dropOnly_removeErrorHandler dropOnly_handleAppendError]])

lemma appends_appendChunk: "appends c s (appendChunk c h r s)"
proof (cases "case sourceBuffer s of None \<Rightarrow> None | Some sb \<Rightarrow> appendReply r")
  case (Some err)
  then show ?thesis
    by (simp add: appendChunk_def keepsOrder_appends keepsOrder_handleAppendError_removed)
next
  case None
  define s1 where "s1 = (case sourceBuffer s of
                      None \<Rightarrow> s
                    | Some sb \<Rightarrow> s\<lparr>sourceBuffer := Some (sb\<lparr>updating := True\<rparr>),
                                  sinkLog := sinkLog s @ [AppendBuffer c]\<rparr>)"
  define s2 where "s2 = removeErrorHandler h
                     (s1\<lparr>monitor := (monitor s1)
                          \<lparr>totalChunksProcessed := totalChunksProcessed (monitor s1) + 1,
                           consecutiveErrors := 0,
                           bufferHealthGood := True\<rparr>\<rparr>)"
  have a1: "appends c s s1"
    by (simp add: s1_def appends_def appended_append pending_def split: option.split)
  have "keepsOrder s1 s2"
    unfolding s2_def
    by (rule dropOnly_keepsOrder[OF dropOnly_trans[OF dropOnly_monitor dropOnly_removeErrorHandler]])
  with a1 have a2: "appends c s s2" by (rule appends_keepsOrder)
  have auto_play: "keepsOrder s2 (setTimeout AutoPlayTask 500 s2)"
    by (rule dropOnly_keepsOrder[OF dropOnly_setTimeout]) simp
  have rest: "keepsOrder s2
     (case video s2 of
               None \<Rightarrow> s2
             | Some v \<Rightarrow>
                 if \<not> paused v then s2
                 else
                   (case sourceBuffer s2 of
                      None \<Rightarrow> s2
                    | Some sb \<Rightarrow>
                        (case buffered sb of
                           None \<Rightarrow> handleAppendError InvalidStateError c r (removeErrorHandler h s2)
                         | Some ranges \<Rightarrow>
                             if length ranges > 0 \<and> snd (ranges ! (length ranges - 1)) \<ge> 3
                             then setTimeout AutoPlayTask 500 s2
                             else s2)))"
    by (simp add: dropOnly_keepsOrder[OF dropOnly_refl] auto_play
        keepsOrder_handleAppendError_removed split: option.split)
  have "appendChunk c h r s = (case video s2 of
               None \<Rightarrow> s2
             | Some v \<Rightarrow>
                 if \<not> paused v then s2
                 else
                   (case sourceBuffer s2 of
                      None \<Rightarrow> s2
                    | Some sb \<Rightarrow>
                        (case buffered sb of
                           None \<Rightarrow> handleAppendError InvalidStateError c r (removeErrorHandler h s2)
                         | Some ranges \<Rightarrow>
                             if length ranges > 0 \<and> snd (ranges ! (length ranges - 1)) \<ge> 3
                             then setTimeout AutoPlayTask 500 s2
                             else s2)))"
    using None unfolding appendChunk_def s2_def s1_def Let_def by simp
  then show ?thesis using appends_keepsOrder[OF a2 rest] by simp
qed

lemma keepsOrder_runTask:
  "\<not> isAppend t \<Longrightarrow> keepsOrder s (runTask t r s)"
  by (cases t)
     (simp_all add: runTask_def keepsOrder_processStreamQueue
        dropOnly_keepsOrder[OF dropOnly_recovery] dropOnly_keepsOrder[OF dropOnly_cleanupMediaSource]
        dropOnly_keepsOrder[OF dropOnly_reinit] dropOnly_keepsOrder[OF dropOnly_reinitMp4]
        dropOnly_keepsOrder[OF dropOnly_refl])

lemma inflight_none:
  "list_all (\<lambda>t. fst t > 0) ts \<Longrightarrow> appendDelaysZero ts \<Longrightarrow> inflight ts = []"
  by (induction ts rule: inflight.induct) (simp_all add: appendDelaysZero_def)

lemma appendDelaysZero_append:
  "appendDelaysZero (xs @ ys) = (appendDelaysZero xs \<and> appendDelaysZero ys)"
  by (simp add: appendDelaysZero_def)

lemma timers_split:
  "i < length ts \<Longrightarrow> ts = take i ts @ (ts ! i) # drop (Suc i) ts"
  by (simp add: id_take_nth_drop)

lemma flows_fire:
  assumes z: "appendDelaysZero (timers s)"
  shows "flows s (fire i r s)"
proof (cases "mayFire i (timers s)")
  case False
  then show ?thesis by (simp add: fire_def flows_refl)
next
  case True
  let ?ts = "timers s"
  let ?s0 = "s\<lparr>timers := take i ?ts @ drop (Suc i) ?ts\<rparr>"
  obtain d t where dt: "?ts ! i = (d, t)" by (cases "?ts ! i")
  from True have i: "i < length ?ts" and early: "list_all (\<lambda>x. fst x > d) (take i ?ts)"
    by (simp_all add: mayFire_def dt)
  have split: "?ts = take i ?ts @ (d, t) # drop (Suc i) ?ts"
    using timers_split[OF i] dt by simp
  have z3: "appendDelaysZero (take i ?ts)" "appendDelaysZero [(d, t)]" "appendDelaysZero (drop (Suc i) ?ts)"
    using z by (subst (asm) split, simp add: appendDelaysZero_append appendDelaysZero_def)+
  have z0: "appendDelaysZero (timers ?s0)"
    using z3 by (simp add: appendDelaysZero_append)
  have f: "fire i r s = runTask t r ?s0"
    using True by (simp add: fire_def dt)
  show ?thesis
  proof (cases "isAppend t")
    case False
    have "inflight ?ts = inflight (take i ?ts) @ inflight (drop (Suc i) ?ts)"
      using False by (subst split) (cases t, simp_all add: inflight_append)
    then have "keepsOrder s ?s0"
      using z0 by (simp add: keepsOrder_def pending_def inflight_append)
    from keepsOrder_trans[OF this keepsOrder_runTask[OF False]]
    show ?thesis unfolding f by (rule keepsOrder_flows)
  next
    case True
    then obtain c h where t: "t = AppendTask c h" by (cases t) simp_all
    have d0: "d = 0" using z3(2) t by (simp add: appendDelaysZero_def)
    have none: "inflight (take i ?ts) = []"
      using early z3(1) d0 by (simp add: inflight_none)
    have infl: "inflight ?ts = c # inflight (timers ?s0)"
      by (subst split) (simp add: inflight_append none t)
    have a: "appends c ?s0 (appendChunk c h r ?s0)" by (rule appends_appendChunk)
    let ?s' = "appendChunk c h r ?s0"
    from a z0 have keep: "pushLog ?s' = pushLog s" "subseq (pending ?s') (pending ?s0)"
      "appendDelaysZero (timers ?s')" "\<not> isStreaming s \<longrightarrow> \<not> isStreaming ?s'"
      and app: "appended (sinkLog ?s') = appended (sinkLog s)
               \<or> appended (sinkLog ?s') = appended (sinkLog s) @ [c]"
      by (simp_all add: appends_def)
    have p: "pending s = c # pending ?s0"
      by (simp add: pending_def infl)
    have "\<exists>A P. appended (sinkLog ?s') = appended (sinkLog s) @ A \<and> pushLog ?s' = pushLog s @ P
             \<and> subseq (A @ pending ?s') (pending s @ P)"
    proof (rule disjE[OF app])
      assume "appended (sinkLog ?s') = appended (sinkLog s)"
      then show ?thesis
        using keep(1) list_emb_Cons[OF keep(2), of c] p by (intro exI[of _ "[]"]) simp
    next
      assume "appended (sinkLog ?s') = appended (sinkLog s) @ [c]"
      then show ?thesis
        using keep(1,2) p by (intro exI[of _ "[c]"] exI[of _ "[]"]) simp
    qed
    then have "flows s ?s'"
      using keep(3,4) by (simp add: flows_def)
    then show ?thesis by (simp add: f t runTask_def)
  qed
qed

lemma dropOnly_finally: "dropOnly s (s\<lparr>isStreaming := False\<rparr>)"
  by (simp add: dropOnly_def)

lemmas dropOnly_flows = keepsOrder_flows[OF dropOnly_keepsOrder]

lemma flows_step:
  assumes "appendDelaysZero (timers s)"
  shows "flows s (step er s)"
proof -
  obtain e r where er: "er = (e, r)" by (cases er)
  show ?thesis
    unfolding er step_def
    by (cases e)
       (simp_all add: flows_fire[OF assms] flows_addChunkToStream
          keepsOrder_flows[OF keepsOrder_processStreamQueue]
          dropOnly_flows[OF dropOnly_initMediaSource]
          dropOnly_flows[OF dropOnly_onSourceBufferError]
          dropOnly_flows[OF dropOnly_onSourceOpen]
          dropOnly_flows[OF dropOnly_stopStreaming]
          dropOnly_flows[OF dropOnly_logPerformanceStats]
          dropOnly_flows[OF dropOnly_observe]
          dropOnly_flows[OF dropOnly_finally])
qed

lemma flows_run:
  "appendDelaysZero (timers s) \<Longrightarrow> flows s (run es s)"
proof (induction es arbitrary: s)
  case Nil
  then show ?case by (simp add: run_def flows_refl)
next
  case (Cons e es)
  have 1: "flows s (step e s)" using Cons.prems by (rule flows_step)
  then have "appendDelaysZero (timers (step e s))" using Cons.prems by (simp add: flows_def)
  from Cons.IH[OF this] have "flows (step e s) (run es (step e s))" .
  with 1 show ?case by (simp add: run_def flows_trans)
qed

subsection \<open>Admission control\<close>





subsection \<open>Recovery from a full buffer\<close>

lemma removals_append: "removals (xs @ ys) = removals xs @ removals ys"
  by (induction xs rule: removals.induct) simp_all

text \<open>
  C4. After \<open>appendBuffer\<close> has thrown \<open>QuotaExceededError\<close>, with a SourceBuffer whose
  ranges can be read and a sink that accepts the removal: when at least two ranges are
  buffered, exactly one removal is issued, of the range from 0 to the start of the second
  range, \<open>processStreamQueue\<close> is set to run again after 100 ms, and the session keeps
  streaming with its queue as it was; when fewer than two ranges are buffered nothing is
  removed and \<open>stopStreaming\<close> aborts the session.
\<close>

theorem quota_recovery:
  assumes "sourceBuffer s = Some sb" "buffered sb = Some ranges" "removeOk r"
  shows "(length ranges \<ge> 2 \<longrightarrow>
            handleAppendError QuotaExceededError c r s
              = s\<lparr>sourceBuffer := Some (sb\<lparr>updating := True\<rparr>),
                  sinkLog := sinkLog s @ [Remove 0 (fst (ranges ! 1))],
                  timers := timers s @ [(100, ProcessStreamQueueTask)]\<rparr>
          \<and> removals (sinkLog (handleAppendError QuotaExceededError c r s))
              = removals (sinkLog s) @ [(0, fst (ranges ! 1))]
          \<and> isStreaming (handleAppendError QuotaExceededError c r s) = isStreaming s
          \<and> streamQueue (handleAppendError QuotaExceededError c r s) = streamQueue s)
       \<and> (length ranges < 2 \<longrightarrow>
            handleAppendError QuotaExceededError c r s = stopStreaming r s
          \<and> removals (sinkLog (handleAppendError QuotaExceededError c r s)) = removals (sinkLog s)
          \<and> \<not> isStreaming (handleAppendError QuotaExceededError c r s)
          \<and> streamQueue (handleAppendError QuotaExceededError c r s) = [])"
proof -
  have big: "handleAppendError QuotaExceededError c r s
              = s\<lparr>sourceBuffer := Some (sb\<lparr>updating := True\<rparr>),
                  sinkLog := sinkLog s @ [Remove 0 (fst (ranges ! 1))],
                  timers := timers s @ [(100, ProcessStreamQueueTask)]\<rparr>"
    if "length ranges \<ge> 2"
    using assms that
    by (simp add: handleAppendError_def handleBufferQuotaExceeded_def setTimeout_def Let_def)
  have small: "handleAppendError QuotaExceededError c r s = stopStreaming r s"
    if "length ranges < 2"
    using assms that
    by (simp add: handleAppendError_def handleBufferQuotaExceeded_def)
  have stop: "removals (sinkLog (stopStreaming r s)) = removals (sinkLog s)"
    "\<not> isStreaming (stopStreaming r s)" "streamQueue (stopStreaming r s) = []"
    by (simp_all add: stopStreaming_def cleanupMediaSource_def setTimeout_def removals_append
        Let_def split: option.split)
  show ?thesis
    using big small stop by (simp add: removals_append)
qed

theorem quota_recovery_witness:
  "sourceBuffer twoSegments = Some (openBuffer\<lparr>buffered := Some [(0, 8), (8, 16)]\<rparr>)
   \<and> buffered (openBuffer\<lparr>buffered := Some [(0, 8), (8, 16)]\<rparr>) = Some [(0, 8), (8, 16)]
   \<and> removeOk agreeable
   \<and> removals (sinkLog (handleAppendError QuotaExceededError (3, [1]) agreeable twoSegments)) = [(0, 8)]
   \<and> isStreaming (handleAppendError QuotaExceededError (3, [1]) agreeable twoSegments)
   \<and> streamQueue (handleAppendError QuotaExceededError (3, [1]) agreeable twoSegments) = [(3, [1])]
   \<and> sourceBuffer oneSegment = Some (openBuffer\<lparr>buffered := Some [(0, 8)]\<rparr>)
   \<and> removals (sinkLog (handleAppendError QuotaExceededError (2, [1]) agreeable oneSegment)) = []
   \<and> \<not> isStreaming (handleAppendError QuotaExceededError (2, [1]) agreeable oneSegment)
   \<and> streamQueue (handleAppendError QuotaExceededError (2, [1]) agreeable oneSegment) = []"
proof -
  have two: "sourceBuffer twoSegments = Some (openBuffer\<lparr>buffered := Some [(0, 8), (8, 16)]\<rparr>)"
    "buffered (openBuffer\<lparr>buffered := Some [(0, 8), (8, 16)]\<rparr>) = Some [(0, 8), (8, 16)]"
    and one: "sourceBuffer oneSegment = Some (openBuffer\<lparr>buffered := Some [(0, 8)]\<rparr>)"
    "buffered (openBuffer\<lparr>buffered := Some [(0, 8)]\<rparr>) = Some [(0, 8)]"
    and ok: "removeOk agreeable"
    and logs: "removals (sinkLog twoSegments) = []" "removals (sinkLog oneSegment) = []"
      "isStreaming twoSegments" "streamQueue twoSegments = [(3, [1])]"
    by (simp_all add: twoSegments_def oneSegment_def agreeable_def freshSession_def)
  have l: "length [(0, 8 :: real), (8, 16 :: real)] \<ge> 2" "length [(0, 8 :: real)] < 2"
    by simp_all
  have a: "removals (sinkLog (handleAppendError QuotaExceededError (3, [1]) agreeable twoSegments))
              = removals (sinkLog twoSegments) @ [(0, fst ([(0, 8 :: real), (8, 16 :: real)] ! 1))]"
    "isStreaming (handleAppendError QuotaExceededError (3, [1]) agreeable twoSegments)
       = isStreaming twoSegments"
    "streamQueue (handleAppendError QuotaExceededError (3, [1]) agreeable twoSegments)
       = streamQueue twoSegments"
    using quota_recovery[OF two ok, of "(3, [1])"] l(1) by blast+
  have b: "removals (sinkLog (handleAppendError QuotaExceededError (2, [1]) agreeable oneSegment))
              = removals (sinkLog oneSegment)"
    "\<not> isStreaming (handleAppendError QuotaExceededError (2, [1]) agreeable oneSegment)"
    "streamQueue (handleAppendError QuotaExceededError (2, [1]) agreeable oneSegment) = []"
    using quota_recovery[OF one ok, of "(2, [1])"] l(2) by blast+
  show ?thesis
    using two one(1) ok by (simp add: a b logs)
qed

subsection \<open>The circuit breaker\<close>

lemma stopped_runTask: "\<not> isStreaming s \<Longrightarrow> \<not> isStreaming (runTask t r s)"
proof (cases "isAppend t")
  case True
  then obtain c h where "t = AppendTask c h" by (cases t) simp_all
  then show "\<not> isStreaming s \<Longrightarrow> \<not> isStreaming (runTask t r s)"
    using appends_appendChunk[of c s h r] by (simp add: runTask_def appends_def)
next
  case False
  then show "\<not> isStreaming s \<Longrightarrow> \<not> isStreaming (runTask t r s)"
    using keepsOrder_runTask[OF False, of s r] by (simp add: keepsOrder_def)
qed

lemma stopped_step: "\<not> isStreaming s \<Longrightarrow> \<not> isStreaming (step er s)"
proof -
  assume a: "\<not> isStreaming s"
  obtain e r where er: "er = (e, r)" by (cases er)
  have d: "dropOnly s s' \<Longrightarrow> \<not> isStreaming s'" for s'
    using a by (simp add: dropOnly_def)
  have k: "keepsOrder s s' \<Longrightarrow> \<not> isStreaming s'" for s'
    using a by (simp add: keepsOrder_def)
  show ?thesis
    unfolding er step_def
    using a
    by (cases e)
       (simp_all add: d[OF dropOnly_initMediaSource] d[OF dropOnly_onSourceBufferError]
          d[OF dropOnly_onSourceOpen] d[OF dropOnly_stopStreaming]
          d[OF dropOnly_logPerformanceStats] d[OF dropOnly_observe]
          k[OF keepsOrder_processStreamQueue] addChunkToStream_def fire_def stopped_runTask)
qed

lemma stopped_run: "\<not> isStreaming s \<Longrightarrow> \<not> isStreaming (run es s)"
  unfolding run_def
  by (induction es arbitrary: s) (simp_all add: stopped_step)

lemma recovery_clears_queue: "streamQueue (handleSourceBufferErrorRecovery r s) = []"
  by (simp add: handleSourceBufferErrorRecovery_def setTimeout_def stopStreaming_def
      cleanupMediaSource_def safeEndStream_def Let_def split: option.split prod.split)

text \<open>
  C2, as worded, has the session abort once the counter of consecutive append failures is
  at 5. In the run \<open>fiveFailures\<close> the counter stands at 5 and the session is streaming;
  three ticks of the performance monitor later nothing has changed. In the run
  \<open>sixFailures\<close> the counter stands at 6 and the sink is open: the tick runs the recovery,
  and the session is still streaming after it.
\<close>

theorem five_failures_do_not_abort:
  "consecutiveErrors (monitor (run fiveFailures freshSession)) = 5
   \<and> isStreaming (run fiveFailures freshSession)
   \<and> run (fiveFailures @ [(Tick, agreeable), (Tick, agreeable), (Tick, agreeable)]) freshSession
       = run fiveFailures freshSession
   \<and> consecutiveErrors (monitor (run sixFailures freshSession)) = 6
   \<and> isStreaming (run (sixFailures @ [(Tick, agreeable)]) freshSession)"
  by code_simp

text \<open>
  C2 (amended). A tick of the performance monitor (\<open>logPerformanceStats\<close>) that finds the
  counter of consecutive append failures at 5 or less changes nothing. A tick that finds it
  above 5 runs \<open>handleSourceBufferErrorRecovery\<close>, which empties the queue; when the sink
  is unusable (no SourceBuffer, no MediaSource, or a MediaSource that is not open) this is
  the full reset, \<open>stopStreaming\<close> aborts the session and a re-initialisation is set for
  2000 ms later; when the sink is open the tick leaves \<open>isStreaming\<close> as it is. Once
  \<open>isStreaming\<close> is false it stays false under every turn of the session, so a session
  goes from streaming to aborted at most once.
\<close>

theorem circuit_breaker:
  "(consecutiveErrors (monitor s) \<le> 5 \<longrightarrow> logPerformanceStats r s = s)
   \<and> (consecutiveErrors (monitor s) > 5 \<longrightarrow>
         logPerformanceStats r s = handleSourceBufferErrorRecovery r s
       \<and> streamQueue (logPerformanceStats r s) = [])
   \<and> (consecutiveErrors (monitor s) > 5 \<and> sinkUnusable s \<longrightarrow>
         logPerformanceStats r s = setTimeout ReinitTask 2000 (stopStreaming r s)
       \<and> \<not> isStreaming (logPerformanceStats r s))
   \<and> (consecutiveErrors (monitor s) > 5 \<and> \<not> sinkUnusable s \<longrightarrow>
         isStreaming (logPerformanceStats r s) = isStreaming s)
   \<and> (\<not> isStreaming s \<longrightarrow> \<not> isStreaming (run es s))"
proof -
  have unusable: "handleSourceBufferErrorRecovery r s = setTimeout ReinitTask 2000 (stopStreaming r s)"
    if "sinkUnusable s"
    using that
    by (auto simp: sinkUnusable_def handleSourceBufferErrorRecovery_def split: option.splits)
  have stop: "\<not> isStreaming (setTimeout ReinitTask 2000 (stopStreaming r s))"
    by (simp add: setTimeout_def stopStreaming_def cleanupMediaSource_def Let_def split: option.split)
  have usable: "isStreaming (handleSourceBufferErrorRecovery r s) = isStreaming s"
    if "\<not> sinkUnusable s"
    using that
    by (auto simp: sinkUnusable_def handleSourceBufferErrorRecovery_def setTimeout_def
        safeEndStream_def split: option.splits)
  show ?thesis
    using unusable stop usable stopped_run[of s es]
    by (simp add: logPerformanceStats_def recovery_clears_queue)
qed

theorem circuit_breaker_witness:
  "5 < consecutiveErrors (monitor sixErrors) \<and> sinkUnusable sixErrors \<and> isStreaming sixErrors
   \<and> \<not> isStreaming (logPerformanceStats agreeable sixErrors)
   \<and> streamQueue (logPerformanceStats agreeable sixErrors) = []
   \<and> \<not> isStreaming (run twoAppends (logPerformanceStats agreeable sixErrors))"
proof -
  have h: "5 < consecutiveErrors (monitor sixErrors)" "sinkUnusable sixErrors" "isStreaming sixErrors"
    by (simp_all add: sixErrors_def freshSession_def sinkUnusable_def)
  have a: "\<not> isStreaming (logPerformanceStats agreeable sixErrors)"
    "streamQueue (logPerformanceStats agreeable sixErrors) = []"
    using circuit_breaker[of sixErrors agreeable twoAppends] h by blast+
  have "\<not> isStreaming (run twoAppends (logPerformanceStats agreeable sixErrors))"
    using circuit_breaker[of "logPerformanceStats agreeable sixErrors" agreeable twoAppends] a(1)
    by blast
  with a show ?thesis using h by simp
qed

subsection \<open>Order of appends\<close>

lemma subseq_sorted: "subseq xs ys \<Longrightarrow> sorted ys \<Longrightarrow> sorted (xs::nat list)"
proof (induction rule: list_emb.induct)
  case (list_emb_Nil ys)
  then show ?case by simp
next
  case (list_emb_Cons xs ys y)
  then show ?case by simp
next
  case (list_emb_Cons2 x y xs ys)
  then have "\<forall>a\<in>set xs. a \<in> set ys"
    using list_emb_set[of "(=)" xs ys] by auto
  with list_emb_Cons2 show ?case by auto
qed

lemma subseq_left: "subseq (xs @ ys) zs \<Longrightarrow> subseq xs zs"
  using subseq_order.order_trans[of xs "xs @ ys" zs] by auto

lemma flows_from:
  assumes "appendDelaysZero (timers s)"
  shows "take (length (appended (sinkLog s))) (appended (sinkLog (run es s))) = appended (sinkLog s)"
    and "take (length (pushLog s)) (pushLog (run es s)) = pushLog s"
    and "subseq (drop (length (appended (sinkLog s))) (appended (sinkLog (run es s))) @ pending (run es s))
           (pending s @ drop (length (pushLog s)) (pushLog (run es s)))"
    and "appendDelaysZero (timers (run es s))"
proof -
  from flows_run[OF assms, of es] obtain A P where
    ap: "appended (sinkLog (run es s)) = appended (sinkLog s) @ A" "pushLog (run es s) = pushLog s @ P"
      "subseq (A @ pending (run es s)) (pending s @ P)"
    and z: "appendDelaysZero (timers (run es s))"
    using assms unfolding flows_def by blast
  show "take (length (appended (sinkLog s))) (appended (sinkLog (run es s))) = appended (sinkLog s)"
    by (simp add: ap(1))
  show "take (length (pushLog s)) (pushLog (run es s)) = pushLog s"
    by (simp add: ap(2))
  show "subseq (drop (length (appended (sinkLog s))) (appended (sinkLog (run es s))) @ pending (run es s))
           (pending s @ drop (length (pushLog s)) (pushLog (run es s)))"
    using ap(3) by (simp add: ap(1,2))
  show "appendDelaysZero (timers (run es s))" by (rule z)
qed


lemma attemptChunk_added:
  "addedChunks (fst (snd (attemptChunk opts e c p))) = []
   \<or> addedChunks (fst (snd (attemptChunk opts e c p))) = [c]"
  by (simp add: attemptChunk_def Let_def addedChunks_append split: prod.split sum.split)

lemma chunkLoop_added_sorted:
  "sorted (addedChunks (fst (chunkLoop D opts env n c errs p)))
   \<and> (\<forall>i \<in> set (addedChunks (fst (chunkLoop D opts env n c errs p))). c \<le> i)"
proof (induction D opts env n c errs p rule: chunkLoop.induct)
  case (1 D opts env n c errs p)
  let ?a = "attemptChunk opts (env n) c p"
  show ?case
  proof (cases "int c * chunkDuration < D \<and> streaming (env n) \<and> \<not> errs \<ge> maxConsecutiveErrors")
    case False
    then show ?thesis by (subst (1 2) chunkLoop.simps) auto
  next
    case go: True
    show ?thesis
    proof (cases "fst ?a")
      case True
      obtain acts ex p' where r: "chunkLoop D opts env (n + 1) (c + 1) 0 (snd (snd ?a)) = (acts, ex, p')"
        by (cases "chunkLoop D opts env (n + 1) (c + 1) 0 (snd (snd ?a))")
      from "1.IH"(1) go True r have ih: "sorted (addedChunks acts)" "\<forall>i\<in>set (addedChunks acts). c + 1 \<le> i"
        by simp_all
      have eq: "chunkLoop D opts env n c errs p = (fst (snd ?a) @ [Sleep 200] @ acts, ex, p')"
        using go True r by (subst chunkLoop.simps) (simp add: prepend_def)
      show ?thesis
        using ih attemptChunk_added[of opts "env n" c p]
        by (auto simp: eq addedChunks_append sorted_append)
    next
      case False
      show ?thesis
      proof (cases "int c * chunkDuration \<ge> D - chunkDuration")
        case True
        have eq: "chunkLoop D opts env n c errs p = (fst (snd ?a), LastChunkIgnored, snd (snd ?a))"
          using go False True by (subst chunkLoop.simps) simp
        show ?thesis
          using attemptChunk_added[of opts "env n" c p] by (auto simp: eq)
      next
        case nl: False
        obtain acts ex p' where r: "chunkLoop D opts env (n + 1) c (errs + 1) (snd (snd ?a)) = (acts, ex, p')"
          by (cases "chunkLoop D opts env (n + 1) c (errs + 1) (snd (snd ?a))")
        from "1.IH"(2) go False nl r have ih: "sorted (addedChunks acts)" "\<forall>i\<in>set (addedChunks acts). c \<le> i"
          by simp_all
        have eq: "chunkLoop D opts env n c errs p = (fst (snd ?a) @ [Sleep 1000] @ acts, ex, p')"
          using go False nl r by (subst chunkLoop.simps) (simp add: prepend_def)
        show ?thesis
          using ih attemptChunk_added[of opts "env n" c p]
          by (auto simp: eq addedChunks_append sorted_append)
      qed
    qed
  qed
qed

lemma fresh_zero: "appendDelaysZero (timers freshSession)" "pending freshSession = []"
  "appended (sinkLog freshSession) = []" "pushLog freshSession = []"
  by (simp_all add: freshSession_def appendDelaysZero_def pending_def)

text \<open>
  C7. In every run of a session, whatever the turns and their order: the chunks the sink
  has accepted, followed by those of the pending deferred appends and those in the queue,
  are a subsequence of the chunks pushed, in the order of the pushes; so appends happen in
  production order, and when the pushes carry non-decreasing sequence indices, as those of
  the chunk loop do, so do the appends. A push puts the chunk at the back of the queue.
  \<open>processStreamQueue\<close> leaves the queue as it is, empties it, or takes exactly its head and
  puts it behind the deferred appends already pending.
\<close>

theorem append_order_is_push_order:
  "subseq (appended (sinkLog (run es freshSession)) @ pending (run es freshSession))
          (pushLog (run es freshSession))
   \<and> subseq (appended (sinkLog (run es freshSession))) (pushLog (run es freshSession))
   \<and> (sorted (map fst (pushLog (run es freshSession)))
        \<longrightarrow> sorted (map fst (appended (sinkLog (run es freshSession)))))
   \<and> sorted (addedChunks (fst (chunkLoop D opts env n c errs p)))
   \<and> (isStreaming s \<longrightarrow>
        addChunkToStream ch r s
          = processStreamQueue r (s\<lparr>streamQueue := streamQueue s @ [ch], pushLog := pushLog s @ [ch]\<rparr>))
   \<and> (inflight (timers (processStreamQueue r s)) = inflight (timers s)
        \<and> (streamQueue (processStreamQueue r s) = streamQueue s \<or> streamQueue (processStreamQueue r s) = [])
      \<or> streamQueue s \<noteq> []
        \<and> streamQueue (processStreamQueue r s) = tl (streamQueue s)
        \<and> inflight (timers (processStreamQueue r s)) = inflight (timers s) @ [hd (streamQueue s)])"
proof -
  let ?s = "run es freshSession"
  have 1: "subseq (appended (sinkLog ?s) @ pending ?s) (pushLog ?s)"
    using flows_from(3)[OF fresh_zero(1), of es] by (simp add: fresh_zero)
  then have 2: "subseq (appended (sinkLog ?s)) (pushLog ?s)" by (rule subseq_left)
  have 3: "sorted (map fst (appended (sinkLog ?s)))" if "sorted (map fst (pushLog ?s))"
    using subseq_sorted[OF subseq_map[OF 2, of fst] that] .
  have 5: "inflight (timers (processStreamQueue r s)) = inflight (timers s)
        \<and> (streamQueue (processStreamQueue r s) = streamQueue s \<or> streamQueue (processStreamQueue r s) = [])
      \<or> streamQueue s \<noteq> []
        \<and> streamQueue (processStreamQueue r s) = tl (streamQueue s)
        \<and> inflight (timers (processStreamQueue r s)) = inflight (timers s) @ [hd (streamQueue s)]"
    by (cases "streamQueue s")
       (auto simp: processStreamQueue_def setTimeout_def stopStreaming_def cleanupMediaSource_def
          addErrorHandler_def inflight_append Let_def split: option.split)
  show ?thesis
    using 1 2 3 5 chunkLoop_added_sorted[of D opts env n c errs p]
    by (simp add: addChunkToStream_def)
qed


theorem append_order_is_push_order_witness:
  "map fst (pushLog (run twoAppends freshSession)) = [0, 1]
   \<and> sorted (map fst (pushLog (run twoAppends freshSession)))
   \<and> appended (sinkLog (run twoAppends freshSession)) = [(0, [1]), (1, [2])]
   \<and> sorted (map fst (appended (sinkLog (run twoAppends freshSession))))"
proof -
  have e: "pushLog (run twoAppends freshSession) = [(0, [1]), (1, [2])]"
    "appended (sinkLog (run twoAppends freshSession)) = [(0, [1]), (1, [2])]"
    by code_simp+
  have s: "sorted (map fst (pushLog (run twoAppends freshSession)))"
    by (simp add: e)
  from append_order_is_push_order[of twoAppends] s
  have "sorted (map fst (appended (sinkLog (run twoAppends freshSession))))" by blast
  with e s show ?thesis by simp
qed

subsection \<open>Clearing the queue\<close>

lemma after_clearing:
  assumes "appendDelaysZero (timers s)" "streamQueue s = []"
  shows "subseq (appendedSince s (run es s)) (inflight (timers s) @ pushedSince s (run es s))"
  using subseq_left[OF flows_from(3)[OF assms(1), of es]] assms(2)
  by (simp add: appendedSince_def pushedSince_def pending_def)

lemma reachable_delays: "appendDelaysZero (timers (run es freshSession))"
  by (rule flows_from(4)[OF fresh_zero(1)])

text \<open>
  C8. \<open>stopStreaming\<close> leaves the queue empty, and so does \<open>processStreamQueue\<close> when it
  finds the sink unusable (no SourceBuffer, no MediaSource, or a MediaSource whose
  \<open>readyState\<close> is not open); \<open>handleSourceBufferErrorRecovery\<close> empties it on all its
  paths. Whatever turns follow, the chunks appended afterwards are, in order, among the
  chunks of the deferred appends that were already pending and the chunks pushed afterwards:
  none of them comes from the queue that was cleared. (Deferred appends are set with delay
  0 in every state a run from the start of a session reaches.)
\<close>

theorem cleared_queue_is_never_appended:
  "streamQueue (stopStreaming r s) = []
   \<and> (sinkUnusable s \<longrightarrow> processStreamQueue r s = s\<lparr>streamQueue := []\<rparr>)
   \<and> streamQueue (handleSourceBufferErrorRecovery r s) = []
   \<and> (appendDelaysZero (timers s) \<longrightarrow>
         subseq (appendedSince (stopStreaming r s) (run es (stopStreaming r s)))
                (inflight (timers s) @ pushedSince (stopStreaming r s) (run es (stopStreaming r s)))
       \<and> subseq (appendedSince (s\<lparr>streamQueue := []\<rparr>) (run es (s\<lparr>streamQueue := []\<rparr>)))
                (inflight (timers s) @ pushedSince (s\<lparr>streamQueue := []\<rparr>) (run es (s\<lparr>streamQueue := []\<rparr>)))
       \<and> (\<forall>x. x \<notin> set (inflight (timers s))
                \<and> x \<notin> set (pushedSince (stopStreaming r s) (run es (stopStreaming r s)))
              \<longrightarrow> x \<notin> set (appendedSince (stopStreaming r s) (run es (stopStreaming r s)))))
   \<and> appendDelaysZero (timers (run es0 freshSession))"
proof -
  have q: "streamQueue (stopStreaming r s) = []"
    by (simp add: stopStreaming_def cleanupMediaSource_def setTimeout_def Let_def split: option.split)
  have u: "processStreamQueue r s = s\<lparr>streamQueue := []\<rparr>" if "sinkUnusable s"
    using that by (simp add: processStreamQueue_def)
  have after: "subseq (appendedSince (stopStreaming r s) (run es (stopStreaming r s)))
                (inflight (timers s) @ pushedSince (stopStreaming r s) (run es (stopStreaming r s)))"
    and after': "subseq (appendedSince (s\<lparr>streamQueue := []\<rparr>) (run es (s\<lparr>streamQueue := []\<rparr>)))
                (inflight (timers s) @ pushedSince (s\<lparr>streamQueue := []\<rparr>) (run es (s\<lparr>streamQueue := []\<rparr>)))"
    if z: "appendDelaysZero (timers s)"
  proof -
    have d: "dropOnly s (stopStreaming r s)" by (rule dropOnly_stopStreaming)
    then have z': "appendDelaysZero (timers (stopStreaming r s))"
      and i: "inflight (timers (stopStreaming r s)) = inflight (timers s)"
      using z by (simp_all add: dropOnly_def)
    show "subseq (appendedSince (stopStreaming r s) (run es (stopStreaming r s)))
                (inflight (timers s) @ pushedSince (stopStreaming r s) (run es (stopStreaming r s)))"
      using after_clearing[OF z' q, of es] by (simp add: i)
    show "subseq (appendedSince (s\<lparr>streamQueue := []\<rparr>) (run es (s\<lparr>streamQueue := []\<rparr>)))
                (inflight (timers s) @ pushedSince (s\<lparr>streamQueue := []\<rparr>) (run es (s\<lparr>streamQueue := []\<rparr>)))"
      using after_clearing[of "s\<lparr>streamQueue := []\<rparr>" es] z by simp
  qed
  have none: "x \<notin> set (appendedSince (stopStreaming r s) (run es (stopStreaming r s)))"
    if "appendDelaysZero (timers s)" "x \<notin> set (inflight (timers s))"
      "x \<notin> set (pushedSince (stopStreaming r s) (run es (stopStreaming r s)))" for x
  proof
    assume "x \<in> set (appendedSince (stopStreaming r s) (run es (stopStreaming r s)))"
    from list_emb_set[OF after[OF that(1)] this] that(2,3) show False by auto
  qed
  show ?thesis
    using q u after after' none recovery_clears_queue[of r s] reachable_delays[of es0]
    by blast
qed

theorem cleared_queue_is_never_appended_witness:
  "appendDelaysZero (timers stalledQueue)
   \<and> streamQueue stalledQueue = [(0, [1]), (1, [2])]
   \<and> streamQueue (stopStreaming agreeable stalledQueue) = []
   \<and> inflight (timers stalledQueue) = []
   \<and> appendedSince (stopStreaming agreeable stalledQueue)
        (run twoAppends (stopStreaming agreeable stalledQueue)) = []"
proof -
  have h: "appendDelaysZero (timers stalledQueue)" "inflight (timers stalledQueue) = []"
    "streamQueue stalledQueue = [(0, [1]), (1, [2])]"
    by (simp_all add: stalledQueue_def freshSession_def appendDelaysZero_def)
  have p: "pushedSince (stopStreaming agreeable stalledQueue)
             (run twoAppends (stopStreaming agreeable stalledQueue)) = []"
    by code_simp
  from cleared_queue_is_never_appended[of agreeable stalledQueue twoAppends] h
  have "streamQueue (stopStreaming agreeable stalledQueue) = []"
    "subseq (appendedSince (stopStreaming agreeable stalledQueue)
               (run twoAppends (stopStreaming agreeable stalledQueue)))
            (inflight (timers stalledQueue)
               @ pushedSince (stopStreaming agreeable stalledQueue)
                   (run twoAppends (stopStreaming agreeable stalledQueue)))"
    by blast+
  then show ?thesis using h by (simp add: p)
qed
end
